theory Spec2Isabelle
  imports Complex_Main "HOL-Library.Log_Nat"
begin

section \<open>The scoreboard service: ledger, rank cache and broadcast channel\<close>

text \<open>
  A shallow embedding of the service's business logic: \<^verbatim>\<open>scoreService.ts\<close>
  (score mutation, rank queries, request validation), \<^verbatim>\<open>leaderboardService.ts\<close>
  (top-N listing with its Redis cache), \<^verbatim>\<open>validator.ts\<close> (timestamp window),
  \<^verbatim>\<open>websocketService.ts\<close> (local broadcast and cross-process publish) and the two
  controllers.

  Conventions of the embedding.
  \<^item> The asynchronous functions run one after the other on an explicit \<open>world\<close>: the
    committed PostgreSQL tables, the Redis keys, the messages published on the Redis channel
    and the WebSocket clients of this process.
  \<^item> Every call that leaves the process (a PostgreSQL statement, a Redis command) can fail.
    A function \<open>faults\<close> says which calls fail; a failing call throws and has no effect.
  \<^item> A thrown exception is a value \<open>Inl e\<close>; each \<^verbatim>\<open>try/catch\<close> of the source is a
    case distinction on it.
  \<^item> \<^verbatim>\<open>Date.now()\<close> is the parameter \<open>now\<close>, in milliseconds.
  \<^item> A JavaScript number that holds an integer is the \<open>int\<close> of its value. \<open>updateScore\<close>
    computes with the score: there \<^verbatim>\<open>parseInt\<close> of the \<^verbatim>\<open>BIGINT\<close> text, \<^verbatim>\<open>+\<close> and
    the \<^verbatim>\<open>toString\<close> of the query parameters are those of doubles, with their rounding
    from \<open>2^53\<close> on. The read paths return or compare the score as it is stored, which is
    what the code shows for every score below \<open>2^53\<close>. Ranks, counts and timestamps are
    far below \<open>2^53\<close>.
\<close>

subsection \<open>Tables (schema.sql)\<close>

type_synonym time = int

record user_row =
  u_user_id :: string
  u_username :: string

record score_row =
  s_user_id :: string
  s_score :: int
  s_updated_at :: time

record history_row =
  h_user_id :: string
  h_score_increment :: int
  h_previous_score :: int
  h_new_score :: int
  h_action_id :: "string option"
  h_ip_address :: "string option"
  h_user_agent :: "string option"
  h_created_at :: time

record database =
  users :: "user_row list"
  scores :: "score_row list"
  score_history :: "history_row list"

subsection \<open>Failures of external calls\<close>

datatype call =
    PoolConnect | Begin | SelectForUpdate | UpsertScore | InsertHistory | Commit
  | ScoreQuery | RankQuery | Top10Query | TopUsersQuery | TotalUsersQuery | UserRankQuery
  | RedisConnect | RedisGet | RedisSetEx | RedisDel | RedisPublish

type_synonym faults = "call \<Rightarrow> bool"

text \<open>
  \<open>Error msg\<close> is \<^verbatim>\<open>new Error(msg)\<close> thrown by the service itself, \<open>CallFailed c\<close> a
  failure of the external call \<open>c\<close> (connection loss, timeout), \<open>QueryRejected msg\<close> a
  statement PostgreSQL refuses (a foreign key violation, a negative \<^verbatim>\<open>OFFSET\<close>).
\<close>

datatype exn = Error string | CallFailed call | QueryRejected string

subsection \<open>Integers as JavaScript numbers and as PostgreSQL parameters\<close>

text \<open>
  A JavaScript number is a double: 53 significant bits. \<open>round_double n\<close> is the double
  nearest to the integer \<open>n\<close>, the even one of two that are equally near: \<open>n\<close> is cut
  to a multiple of the power of two \<open>p\<close> that leaves 53 bits, and rounded. (The integers
  here are far inside the range of doubles: a \<^verbatim>\<open>BIGINT\<close> is below \<open>2^63\<close>.)
\<close>

definition round_double :: "int \<Rightarrow> int" where
  "round_double n =
     (let a = \<bar>n\<bar>;
          p = 2 ^ nat (bitlen a - 53);
          q = a div p;
          r = a mod p;
          up = (if 2 * r = p then odd q else p < 2 * r)
      in sgn n * ((if up then q + 1 else q) * p))"

text \<open>
  \<^verbatim>\<open>parseInt(text, 10)\<close> of the text of a \<^verbatim>\<open>BIGINT\<close> (at most 19 digits) is the number
  nearest to it, and \<^verbatim>\<open>a + b\<close>, of two numbers, the number nearest to the sum.
\<close>

definition parseInt_bigint :: "int \<Rightarrow> int" where
  "parseInt_bigint v = round_double v"

definition js_plus :: "int \<Rightarrow> int \<Rightarrow> int" where
  "js_plus a b = round_double (a + b)"

text \<open>
  \<^verbatim>\<open>Number.prototype.toString\<close> prints the shortest run of digits that still reads back
  as the same number, filled up with zeros: \<open>2^63\<close> prints as
  \<^verbatim>\<open>9223372036854776000\<close>. \<open>shortest_at a scale\<close> looks for such digits ending at the
  decimal place \<open>scale\<close>, below and above \<open>a\<close>, and takes the nearer (of two equally
  near, the one with the even last digit); \<open>shortest_from\<close> tries the places from the
  leading digit down. \<open>toString_value d\<close> is the integer that the printed text of the
  number \<open>d\<close> denotes. (From \<open>10^21\<close> on the text has an exponent; PostgreSQL refuses it
  as it refuses its value.)
\<close>

definition shortest_at :: "int \<Rightarrow> int \<Rightarrow> int option" where
  "shortest_at a scale =
     (let lo = (a div scale) * scale;
          hi = lo + scale
      in if round_double lo = a
         then (if round_double hi = a
               then (if a - lo < hi - a then Some lo
                     else if hi - a < a - lo then Some hi
                     else if even (a div scale) then Some lo
                     else Some hi)
               else Some lo)
         else if round_double hi = a then Some hi
         else None)"

function top_scale :: "int \<Rightarrow> int" where
  "top_scale a = (if a < 10 then 1 else 10 * top_scale (a div 10))"
  by pat_completeness auto
termination
  by (relation "measure nat") auto

function shortest_from :: "int \<Rightarrow> int \<Rightarrow> int" where
  "shortest_from a scale =
     (case shortest_at a scale of
        Some v \<Rightarrow> v
      | None \<Rightarrow> if scale \<le> 1 then a else shortest_from a (scale div 10))"
  by pat_completeness auto
termination
  by (relation "measure (\<lambda>(a, scale). nat scale)") auto

definition toString_value :: "int \<Rightarrow> int" where
  "toString_value d = sgn d * shortest_from \<bar>d\<bar> (top_scale \<bar>d\<bar>)"

text \<open>
  node-postgres sends a number as its \<^verbatim>\<open>toString()\<close>; PostgreSQL reads the text into
  the column's type and refuses a value outside its range.
\<close>

definition pg_bigint :: "int \<Rightarrow> exn + int" where
  "pg_bigint num =
     (let v = toString_value num
      in if v < - (2 ^ 63) then Inl (QueryRejected ''out of range for type bigint'')
         else if 2 ^ 63 \<le> v then Inl (QueryRejected ''out of range for type bigint'')
         else Inr v)"

definition pg_int4 :: "int \<Rightarrow> exn + int" where
  "pg_int4 num =
     (let v = toString_value num
      in if v < - (2 ^ 31) then Inl (QueryRejected ''out of range for type integer'')
         else if 2 ^ 31 \<le> v then Inl (QueryRejected ''out of range for type integer'')
         else Inr v)"

subsection \<open>A PostgreSQL client connection with its transaction\<close>

text \<open>
  A client sees the committed tables, or the private copy of its open transaction. A
  statement outside a transaction is committed at once; inside one it changes the private
  copy only, which \<^verbatim>\<open>COMMIT\<close> publishes and \<^verbatim>\<open>ROLLBACK\<close> drops.
\<close>

record pg_client =
  committed :: database
  pending :: "database option"

definition visible :: "pg_client \<Rightarrow> database" where
  "visible c = (case pending c of Some d \<Rightarrow> d | None \<Rightarrow> committed c)"

definition store :: "database \<Rightarrow> pg_client \<Rightarrow> pg_client" where
  "store d c = (case pending c of Some _ \<Rightarrow> c\<lparr>pending := Some d\<rparr> | None \<Rightarrow> c\<lparr>committed := d\<rparr>)"

definition sql_begin :: "pg_client \<Rightarrow> pg_client" where
  "sql_begin c = c\<lparr>pending := Some (visible c)\<rparr>"

definition sql_commit :: "pg_client \<Rightarrow> pg_client" where
  "sql_commit c = \<lparr>committed = visible c, pending = None\<rparr>"

definition sql_rollback :: "pg_client \<Rightarrow> pg_client" where
  "sql_rollback c = c\<lparr>pending := None\<rparr>"

text \<open>\<^verbatim>\<open>SELECT score FROM scores WHERE user_id = $1\<close>: the row of the user, if any.\<close>

definition select_score :: "database \<Rightarrow> string \<Rightarrow> int option" where
  "select_score d uid = map_option s_score (find (\<lambda>r. s_user_id r = uid) (scores d))"

definition has_user :: "database \<Rightarrow> string \<Rightarrow> bool" where
  "has_user d uid = list_ex (\<lambda>u. u_user_id u = uid) (users d)"

text \<open>
  \<^verbatim>\<open>INSERT INTO scores ... ON CONFLICT (user_id) DO UPDATE SET score = $2, updated_at = ...\<close>
  with the number \<open>newScore\<close> for \<^verbatim>\<open>$2\<close>: the user's row is overwritten where it is, or a
  new row is added at the end; the new row needs its user (the foreign key of
  \<^verbatim>\<open>scores.user_id\<close>).
\<close>

definition upsert_score :: "time \<Rightarrow> string \<Rightarrow> int \<Rightarrow> database \<Rightarrow> exn + database" where
  "upsert_score now uid newScore d =
     (case pg_bigint newScore of
        Inl e \<Rightarrow> Inl e
      | Inr v \<Rightarrow>
          if list_ex (\<lambda>r. s_user_id r = uid) (scores d)
          then Inr (d\<lparr>scores :=
                  map (\<lambda>r. if s_user_id r = uid then r\<lparr>s_score := v, s_updated_at := now\<rparr> else r)
                    (scores d)\<rparr>)
          else if has_user d uid
          then Inr (d\<lparr>scores := scores d @ [\<lparr>s_user_id = uid, s_score = v, s_updated_at = now\<rparr>]\<rparr>)
          else Inl (QueryRejected ''violates foreign key constraint''))"

text \<open>
  \<^verbatim>\<open>INSERT INTO score_history (...) VALUES (...)\<close> with the numbers of \<open>h\<close> for the
  increment (an \<^verbatim>\<open>INT\<close>) and the two scores (\<^verbatim>\<open>BIGINT\<close>): one row more, for a known
  user.
\<close>

definition insert_history :: "history_row \<Rightarrow> database \<Rightarrow> exn + database" where
  "insert_history h d =
     (case pg_int4 (h_score_increment h) of
        Inl e \<Rightarrow> Inl e
      | Inr increment \<Rightarrow>
          (case pg_bigint (h_previous_score h) of
             Inl e \<Rightarrow> Inl e
           | Inr previous \<Rightarrow>
               (case pg_bigint (h_new_score h) of
                  Inl e \<Rightarrow> Inl e
                | Inr new \<Rightarrow>
                    if has_user d (h_user_id h)
                    then Inr (d\<lparr>score_history := score_history d @
                                [h\<lparr>h_score_increment := increment, h_previous_score := previous,
                                   h_new_score := new\<rparr>]\<rparr>)
                    else Inl (QueryRejected ''violates foreign key constraint''))))"

subsection \<open>JavaScript numbers that may be NaN\<close>

text \<open>
  The \<^verbatim>\<open>limit\<close> and \<^verbatim>\<open>offset\<close> of a listing come out of \<^verbatim>\<open>parseInt\<close>: an
  integer, or \<^verbatim>\<open>NaN\<close>. Every comparison with \<^verbatim>\<open>NaN\<close> is false and every sum with
  it is \<^verbatim>\<open>NaN\<close>.
\<close>

datatype number = Num int | NaN

fun js_less :: "number \<Rightarrow> number \<Rightarrow> bool" where
  "js_less (Num a) (Num b) = (a < b)"
| "js_less _ _ = False"

fun js_add :: "number \<Rightarrow> number \<Rightarrow> number" where
  "js_add (Num a) (Num b) = Num (a + b)"
| "js_add _ _ = NaN"

text \<open>
  \<^verbatim>\<open>xs.slice(0, n)\<close>: \<^verbatim>\<open>NaN\<close> counts as 0, and a negative \<open>n\<close> counts from the end
  of the array.
\<close>

definition js_slice0 :: "'a list \<Rightarrow> number \<Rightarrow> 'a list" where
  "js_slice0 xs n =
     (case n of
        NaN \<Rightarrow> []
      | Num k \<Rightarrow> if k < 0 then take (nat (int (length xs) + k)) xs else take (nat k) xs)"

text \<open>
  \<^verbatim>\<open>parseInt(s, 10)\<close>: leading white space is skipped, one sign is read, then the
  longest run of decimal digits; no digit gives \<^verbatim>\<open>NaN\<close>. (ASCII white space only.)
\<close>

definition is_space :: "char \<Rightarrow> bool" where
  "is_space c = (c \<in> set [CHR '' '', CHR 0x09, CHR 0x0A, CHR 0x0B, CHR 0x0C, CHR 0x0D])"

definition is_digit :: "char \<Rightarrow> bool" where
  "is_digit c = (48 \<le> (of_char c :: nat) \<and> (of_char c :: nat) \<le> 57)"

definition digits_value :: "string \<Rightarrow> int" where
  "digits_value ds = foldl (\<lambda>a c. 10 * a + (int (of_char c) - 48)) 0 ds"

definition parseInt :: "string \<Rightarrow> number" where
  "parseInt s =
     (let t = dropWhile is_space s;
          negative = (case t of c # _ \<Rightarrow> c = CHR ''-'' | [] \<Rightarrow> False);
          r = (case t of c # cs \<Rightarrow> if c = CHR ''-'' then cs else if c = CHR ''+'' then cs else t
               | [] \<Rightarrow> []);
          ds = takeWhile is_digit r
      in if ds = [] then NaN
         else if negative then Num (- digits_value ds)
         else Num (digits_value ds))"

subsection \<open>Redis, the channel and the WebSocket clients\<close>

record leaderboard_entry =
  e_user_id :: string
  e_username :: string
  e_score :: int
  e_rank :: number

record update_message =
  m_userId :: string
  m_timestamp :: time

record scoreboard_update =
  su_leaderboard :: "leaderboard_entry list"
  su_updated_user :: "(string \<times> int) option"
  su_timestamp :: time

record ws_client =
  ws_open :: bool
  ws_received :: "scoreboard_update list"

text \<open>
  The world: \<open>db\<close> are the committed tables, which every connection of the pool reads,
  and \<open>tx\<close> is the transaction that the pooled client of \<open>updateScore\<close> has open, if it
  was released with one.
  The Redis key \<^verbatim>\<open>leaderboard:top10\<close> holds a serialised listing and the keys
  \<^verbatim>\<open>user_score:<id>\<close> a score each, every one with the time at which it expires;
  \<^verbatim>\<open>JSON.parse\<close> after \<^verbatim>\<open>JSON.stringify\<close> and \<^verbatim>\<open>parseInt\<close> after
  \<^verbatim>\<open>toString\<close> give the value back, so the values are kept as they are.
\<close>

record world =
  db :: database
  tx :: "database option"
  top10_cache :: "(leaderboard_entry list \<times> time) option"
  score_cache :: "(string \<times> int \<times> time) list"
  channel :: "update_message list"
  wss :: "ws_client list option"

definition LEADERBOARD_CACHE_TTL :: int where
  "LEADERBOARD_CACHE_TTL = 30"

definition USER_SCORE_CACHE_TTL :: int where
  "USER_SCORE_CACHE_TTL = 300"

definition redis_get_top10 :: "time \<Rightarrow> world \<Rightarrow> leaderboard_entry list option" where
  "redis_get_top10 now w =
     (case top10_cache w of
        None \<Rightarrow> None
      | Some (v, expires) \<Rightarrow> if now < expires then Some v else None)"

definition redis_get_score :: "time \<Rightarrow> world \<Rightarrow> string \<Rightarrow> int option" where
  "redis_get_score now w uid =
     (case map_of (score_cache w) uid of
        None \<Rightarrow> None
      | Some (v, expires) \<Rightarrow> if now < expires then Some v else None)"

definition redis_del_score :: "string \<Rightarrow> world \<Rightarrow> world" where
  "redis_del_score uid w = w\<lparr>score_cache := filter (\<lambda>kv. fst kv \<noteq> uid) (score_cache w)\<rparr>"

definition redis_setEx_score :: "time \<Rightarrow> string \<Rightarrow> int \<Rightarrow> world \<Rightarrow> world" where
  "redis_setEx_score now uid v w =
     w\<lparr>score_cache :=
         (uid, v, now + USER_SCORE_CACHE_TTL * 1000) # filter (\<lambda>kv. fst kv \<noteq> uid) (score_cache w)\<rparr>"

subsection \<open>scoreService.ts: updateScore\<close>

record update_score_result =
  previousScore :: int
  newScore :: int

text \<open>Both invalidations catch whatever the Redis call throws and carry on.\<close>

definition invalidateUserScoreCache :: "faults \<Rightarrow> string \<Rightarrow> world \<Rightarrow> world" where
  "invalidateUserScoreCache f userId w =
     (if f RedisConnect then w
      else if f RedisDel then w
      else redis_del_score userId w)"

definition invalidateLeaderboardCache :: "faults \<Rightarrow> world \<Rightarrow> world" where
  "invalidateLeaderboardCache f w =
     (if f RedisConnect then w
      else if f RedisDel then w
      else w\<lparr>top10_cache := None\<rparr>)"

text \<open>
  The body of the \<^verbatim>\<open>try\<close> block: \<^verbatim>\<open>BEGIN\<close>, the locked read, the upsert, the history
  row, \<^verbatim>\<open>COMMIT\<close>. A failure returns the exception with the client as the failing
  statement found it.
\<close>

definition updateScore_try ::
  "faults \<Rightarrow> time \<Rightarrow> pg_client \<Rightarrow> string \<Rightarrow> int \<Rightarrow> string option \<Rightarrow> string option \<Rightarrow> string option
     \<Rightarrow> (exn \<times> pg_client) + (update_score_result \<times> pg_client)" where
  "updateScore_try f now c0 userId scoreIncrement actionId ipAddress userAgent =
     (if f Begin then Inl (CallFailed Begin, c0)
      else
        let c1 = sql_begin c0 in
        if f SelectForUpdate then Inl (CallFailed SelectForUpdate, c1)
        else
          let currentScore =
                (case select_score (visible c1) userId of
                   Some s \<Rightarrow> parseInt_bigint s
                 | None \<Rightarrow> 0);
              newScore' = js_plus currentScore scoreIncrement
          in
            if f UpsertScore then Inl (CallFailed UpsertScore, c1)
            else
              case upsert_score now userId newScore' (visible c1) of
                Inl e \<Rightarrow> Inl (e, c1)
              | Inr d2 \<Rightarrow>
                  let c2 = store d2 c1 in
                  if f InsertHistory then Inl (CallFailed InsertHistory, c2)
                  else
                    (case insert_history
                           \<lparr>h_user_id = userId, h_score_increment = scoreIncrement,
                            h_previous_score = currentScore, h_new_score = newScore',
                            h_action_id = actionId, h_ip_address = ipAddress,
                            h_user_agent = userAgent, h_created_at = now\<rparr>
                           (visible c2) of
                      Inl e \<Rightarrow> Inl (e, c2)
                    | Inr d3 \<Rightarrow>
                        let c3 = store d3 c2 in
                        if f Commit then Inl (CallFailed Commit, c3)
                        else Inr (\<lparr>previousScore = currentScore, newScore = newScore'\<rparr>,
                                  sql_commit c3)))"

text \<open>
  \<^verbatim>\<open>pool.connect()\<close> stands before the \<^verbatim>\<open>try\<close> and hands out the pooled client as
  it was released. The \<^verbatim>\<open>catch\<close> block sends \<^verbatim>\<open>ROLLBACK\<close> and throws the exception
  again; a transaction whose client is lost is dropped by the server all the same, so the
  rollback itself is not a point of failure here. After \<^verbatim>\<open>COMMIT\<close> both caches are
  invalidated. \<^verbatim>\<open>client.release()\<close> in the \<^verbatim>\<open>finally\<close> block gives the client back
  to the pool in the state it has then.
\<close>

definition release :: "pg_client \<Rightarrow> world \<Rightarrow> world" where
  "release c w = w\<lparr>db := committed c, tx := pending c\<rparr>"

definition updateScore ::
  "faults \<Rightarrow> time \<Rightarrow> world \<Rightarrow> string \<Rightarrow> int \<Rightarrow> string option \<Rightarrow> string option \<Rightarrow> string option
     \<Rightarrow> (exn + update_score_result) \<times> world" where
  "updateScore f now w userId scoreIncrement actionId ipAddress userAgent =
     (if f PoolConnect then (Inl (CallFailed PoolConnect), w)
      else
        case updateScore_try f now \<lparr>committed = db w, pending = tx w\<rparr>
               userId scoreIncrement actionId ipAddress userAgent of
          Inl (e, c) \<Rightarrow> (Inl e, release (sql_rollback c) w)
        | Inr (res, c) \<Rightarrow>
            (Inr res,
             invalidateLeaderboardCache f (invalidateUserScoreCache f userId (release c w))))"

subsection \<open>validator.ts and scoreService.ts: validation\<close>

text \<open>
  \<^verbatim>\<open>!timestamp\<close> holds for \<^verbatim>\<open>undefined\<close> and for the number 0. The timestamp has
  passed the route's \<^verbatim>\<open>isInt\<close> check, so \<^verbatim>\<open>parseInt(timestamp.toString(), 10)\<close>
  is the timestamp.
\<close>

definition truthy :: "int option \<Rightarrow> bool" where
  "truthy v = (case v of None \<Rightarrow> False | Some t \<Rightarrow> t \<noteq> 0)"

definition validateTimestamp :: "time \<Rightarrow> int option \<Rightarrow> bool" where
  "validateTimestamp now timestamp =
     (case timestamp of
        None \<Rightarrow> True
      | Some t \<Rightarrow>
          if t = 0 then True
          else
            let requestTime = t;
                timeDiff = \<bar>now - requestTime\<bar>;
                maxTimeDiff = 5 * 60 * 1000
            in timeDiff \<le> maxTimeDiff)"

text \<open>
  The increment is any number a JSON body can hold, a rational; \<^verbatim>\<open>Number.isInteger\<close>
  tells whether it is whole.
\<close>

definition Number_isInteger :: "rat \<Rightarrow> bool" where
  "Number_isInteger q = (of_int \<lfloor>q\<rfloor> = q)"

definition validateScoreUpdateRequest :: "time \<Rightarrow> rat \<Rightarrow> int option \<Rightarrow> exn + bool" where
  "validateScoreUpdateRequest now scoreIncrement timestamp =
     (if \<not> Number_isInteger scoreIncrement \<or> scoreIncrement < 1 \<or> scoreIncrement > 1000
      then Inl (Error ''Score increment must be between 1 and 1000'')
      else if truthy timestamp \<and> \<not> validateTimestamp now timestamp
      then Inl (Error ''Invalid timestamp - possible replay attack'')
      else Inr True)"

subsection \<open>scoreService.ts: reading scores and ranks\<close>

definition getUserScore :: "faults \<Rightarrow> time \<Rightarrow> world \<Rightarrow> string \<Rightarrow> (exn + int) \<times> world" where
  "getUserScore f now w userId =
     (if f RedisConnect then (Inl (CallFailed RedisConnect), w)
      else if f RedisGet then (Inl (CallFailed RedisGet), w)
      else
        case redis_get_score now w userId of
          Some cached \<Rightarrow> (Inr cached, w)
        | None \<Rightarrow>
            if f ScoreQuery then (Inl (CallFailed ScoreQuery), w)
            else
              let score = (case select_score (db w) userId of Some s \<Rightarrow> s | None \<Rightarrow> 0) in
              if f RedisSetEx then (Inl (CallFailed RedisSetEx), w)
              else (Inr score, redis_setEx_score now userId score w))"

text \<open>
  \<^verbatim>\<open>SELECT COUNT(*) + 1 FROM scores WHERE score > (SELECT score FROM scores WHERE user_id = $1)\<close>.
  A scalar subquery with no row is \<^verbatim>\<open>NULL\<close>, a comparison with \<^verbatim>\<open>NULL\<close> is not
  true, and \<^verbatim>\<open>WHERE\<close> keeps the rows whose condition is true.
\<close>

fun sql_greater :: "int \<Rightarrow> int option \<Rightarrow> bool" where
  "sql_greater x None = False"
| "sql_greater x (Some y) = (y < x)"

definition rank_query :: "database \<Rightarrow> string \<Rightarrow> int" where
  "rank_query d uid =
     int (length (filter (\<lambda>r. sql_greater (s_score r) (select_score d uid)) (scores d))) + 1"

definition getUserRank :: "faults \<Rightarrow> world \<Rightarrow> string \<Rightarrow> exn + int" where
  "getUserRank f w userId =
     (if f RankQuery then Inl (CallFailed RankQuery) else Inr (rank_query (db w) userId))"

text \<open>
  \<^verbatim>\<open>ORDER BY score DESC\<close>; rows of equal score stay in storage order.
\<close>

definition order_by_score_desc :: "('a \<Rightarrow> int) \<Rightarrow> 'a list \<Rightarrow> 'a list" where
  "order_by_score_desc score_of rows = sort_key (\<lambda>r. - score_of r) rows"

text \<open>
  \<^verbatim>\<open>SELECT COUNT(*) FROM (SELECT user_id FROM scores ORDER BY score DESC LIMIT 10) top10
  WHERE user_id = $1\<close>; a failing query is caught and answered \<^verbatim>\<open>false\<close>.
\<close>

definition top10_count :: "database \<Rightarrow> string \<Rightarrow> int" where
  "top10_count d uid =
     int (length (filter (\<lambda>i. i = uid)
       (take 10 (map s_user_id (order_by_score_desc s_score (scores d))))))"

definition isUserInTop10 :: "faults \<Rightarrow> world \<Rightarrow> string \<Rightarrow> bool" where
  "isUserInTop10 f w userId =
     (if f Top10Query then False else top10_count (db w) userId > 0)"

subsection \<open>leaderboardService.ts\<close>

record ranked_row =
  r_user_id :: string
  r_username :: string
  r_score :: int
  r_rank :: int

text \<open>\<^verbatim>\<open>FROM scores s INNER JOIN users u ON s.user_id = u.user_id\<close>.\<close>

definition joined_rows :: "database \<Rightarrow> (score_row \<times> user_row) list" where
  "joined_rows d =
     concat (map (\<lambda>s. map (\<lambda>u. (s, u)) (filter (\<lambda>u. u_user_id u = s_user_id s) (users d)))
       (scores d))"

text \<open>
  \<^verbatim>\<open>ROW_NUMBER() OVER (ORDER BY s.score DESC)\<close> numbers all the joined rows from 1, in
  the order of the listing; the window function is computed before \<^verbatim>\<open>LIMIT\<close> and
  \<^verbatim>\<open>OFFSET\<close> cut the listing.
\<close>

definition numbered_rows :: "database \<Rightarrow> ranked_row list" where
  "numbered_rows d =
     map (\<lambda>(n, (s, u)).
            \<lparr>r_user_id = s_user_id s, r_username = u_username u, r_score = s_score s,
             r_rank = int n\<rparr>)
       (enumerate 1 (order_by_score_desc (\<lambda>(s, u). s_score s) (joined_rows d)))"

text \<open>
  \<^verbatim>\<open>... ORDER BY s.score DESC LIMIT $1 OFFSET $2\<close>. PostgreSQL refuses a parameter
  that is not an integer, and a negative \<^verbatim>\<open>LIMIT\<close> or \<^verbatim>\<open>OFFSET\<close>.
\<close>

definition top_users_query :: "database \<Rightarrow> number \<Rightarrow> number \<Rightarrow> exn + ranked_row list" where
  "top_users_query d limit offset =
     (case limit of
        NaN \<Rightarrow> Inl (QueryRejected ''invalid input syntax for type bigint'')
      | Num l \<Rightarrow>
          (case offset of
             NaN \<Rightarrow> Inl (QueryRejected ''invalid input syntax for type bigint'')
           | Num off \<Rightarrow>
               if l < 0 then Inl (QueryRejected ''LIMIT must not be negative'')
               else if off < 0 then Inl (QueryRejected ''OFFSET must not be negative'')
               else Inr (take (nat l) (drop (nat off) (numbered_rows d)))))"

definition redis_setEx_top10 :: "time \<Rightarrow> leaderboard_entry list \<Rightarrow> world \<Rightarrow> world" where
  "redis_setEx_top10 now v w = w\<lparr>top10_cache := Some (v, now + LEADERBOARD_CACHE_TTL * 1000)\<rparr>"

text \<open>
  The cached string is the JSON text of an array, never empty, so \<^verbatim>\<open>if (cached)\<close>
  holds whenever the key is there.
\<close>

definition getTopUsers ::
  "faults \<Rightarrow> time \<Rightarrow> world \<Rightarrow> number \<Rightarrow> number \<Rightarrow> (exn + leaderboard_entry list) \<times> world" where
  "getTopUsers f now w limit offset =
     (case (if offset = Num 0
            then (if f RedisGet then Inl (CallFailed RedisGet) else Inr (redis_get_top10 now w))
            else Inr None) of
        Inl e \<Rightarrow> (Inl e, w)
      | Inr (Some cached) \<Rightarrow> (Inr (js_slice0 cached limit), w)
      | Inr None \<Rightarrow>
          if f TopUsersQuery then (Inl (CallFailed TopUsersQuery), w)
          else
            (case top_users_query (db w) limit offset of
               Inl e \<Rightarrow> (Inl e, w)
             | Inr rows \<Rightarrow>
                 let leaderboard =
                       map (\<lambda>row. \<lparr>e_user_id = r_user_id row, e_username = r_username row,
                                   e_score = r_score row,
                                   e_rank = js_add (Num (r_rank row)) offset\<rparr>) rows
                 in
                   if offset = Num 0
                   then (if f RedisSetEx then (Inl (CallFailed RedisSetEx), w)
                         else (Inr leaderboard, redis_setEx_top10 now leaderboard w))
                   else (Inr leaderboard, w)))"

definition getTotalUsers :: "faults \<Rightarrow> world \<Rightarrow> int" where
  "getTotalUsers f w = (if f TotalUsersQuery then 0 else int (length (scores (db w))))"

record leaderboard_response =
  lr_leaderboard :: "leaderboard_entry list"
  lr_userRank :: "int option"
  lr_totalUsers :: int
  lr_lastUpdated :: time

text \<open>
  The caller's rank is computed when \<^verbatim>\<open>userId\<close> is a non-empty string, by
  \<^verbatim>\<open>... WHERE score > (SELECT COALESCE(score, 0) FROM scores WHERE user_id = $1)\<close>:
  the \<^verbatim>\<open>COALESCE\<close> stands inside the subquery and \<^verbatim>\<open>score\<close> is \<^verbatim>\<open>NOT NULL\<close>, so
  the subquery is that of \<open>rank_query\<close>. A failure of this query is caught and leaves the
  rank \<^verbatim>\<open>null\<close>.
\<close>

definition getLeaderboard ::
  "faults \<Rightarrow> time \<Rightarrow> world \<Rightarrow> number \<Rightarrow> number \<Rightarrow> string option
     \<Rightarrow> (exn + leaderboard_response) \<times> world" where
  "getLeaderboard f now w limit offset userId =
     (case getTopUsers f now w limit offset of
        (Inl e, w1) \<Rightarrow> (Inl e, w1)
      | (Inr leaderboard, w1) \<Rightarrow>
          let totalUsers = getTotalUsers f w1;
              userRank =
                (case userId of
                   None \<Rightarrow> None
                 | Some u \<Rightarrow>
                     if u = [] then None
                     else if f UserRankQuery then None
                     else Some (rank_query (db w1) u))
          in (Inr \<lparr>lr_leaderboard = leaderboard, lr_userRank = userRank,
                    lr_totalUsers = totalUsers, lr_lastUpdated = now\<rparr>, w1))"

subsection \<open>websocketService.ts: local broadcast and cross-process publish\<close>

text \<open>
  Without a WebSocket server nothing happens. Otherwise the top 10 are fetched for the
  updated user and the message goes to every open client; an exception of the fetch is
  caught.
\<close>

definition broadcastLeaderboardUpdate :: "faults \<Rightarrow> time \<Rightarrow> string option \<Rightarrow> world \<Rightarrow> world" where
  "broadcastLeaderboardUpdate f now updatedUserId w =
     (case wss w of
        None \<Rightarrow> w
      | Some clients \<Rightarrow>
          (case getLeaderboard f now w (Num 10) (Num 0) updatedUserId of
             (Inl e, w1) \<Rightarrow> w1
           | (Inr leaderboard, w1) \<Rightarrow>
               let message =
                     \<lparr>su_leaderboard = lr_leaderboard leaderboard,
                      su_updated_user =
                        (case updatedUserId of
                           None \<Rightarrow> None
                         | Some u \<Rightarrow>
                             if u = [] then None
                             else (case lr_userRank leaderboard of
                                     None \<Rightarrow> None
                                   | Some r \<Rightarrow> if r = 0 then None else Some (u, r))),
                      su_timestamp = now\<rparr>
               in w1\<lparr>wss := Some (map (\<lambda>client.
                                   if ws_open client
                                   then client\<lparr>ws_received := ws_received client @ [message]\<rparr>
                                   else client) clients)\<rparr>))"

text \<open>
  \<^verbatim>\<open>redisClient.publish('leaderboard:updates', JSON.stringify({ userId, timestamp: Date.now() }))\<close>;
  a failure is caught and logged.
\<close>

definition publishLeaderboardUpdate :: "faults \<Rightarrow> time \<Rightarrow> string \<Rightarrow> world \<Rightarrow> world" where
  "publishLeaderboardUpdate f now userId w =
     (if f RedisPublish then w
      else w\<lparr>channel := channel w @ [\<lparr>m_userId = userId, m_timestamp = now\<rparr>]\<rparr>)"

subsection \<open>scoreController.ts: updateUserScore\<close>

record user_payload =
  p_userId :: string
  p_username :: string

record score_update_request =
  req_user :: "user_payload option"
  req_score_increment :: rat
  req_action_id :: "string option"
  req_timestamp :: "int option"
  req_ip :: "string option"
  req_user_agent :: "string option"

record score_update_response =
  resp_user_id :: string
  resp_previous_score :: int
  resp_new_score :: int
  resp_rank :: int
  resp_is_top_10 :: bool

text \<open>A response: the JSON of a success, or a status with an error code and message.\<close>

datatype 'a response = Success 'a | Failure nat string string

definition error_message :: "exn \<Rightarrow> string" where
  "error_message e = (case e of Error m \<Rightarrow> m | _ \<Rightarrow> ''Invalid request'')"

text \<open>
  The increment handed to \<open>updateScore\<close> has passed \<^verbatim>\<open>Number.isInteger\<close>, so its floor
  is the increment itself.
\<close>

definition updateUserScore ::
  "faults \<Rightarrow> time \<Rightarrow> world \<Rightarrow> score_update_request \<Rightarrow> score_update_response response \<times> world" where
  "updateUserScore f now w req =
     (case req_user req of
        None \<Rightarrow> (Failure 401 ''UNAUTHORIZED'' ''User not authenticated'', w)
      | Some user \<Rightarrow>
          let userId = p_userId user in
          (case validateScoreUpdateRequest now (req_score_increment req) (req_timestamp req) of
             Inl e \<Rightarrow> (Failure 400 ''INVALID_REQUEST'' (error_message e), w)
           | Inr _ \<Rightarrow>
               (case updateScore f now w userId \<lfloor>req_score_increment req\<rfloor> (req_action_id req)
                       (req_ip req) (req_user_agent req) of
                  (Inl e, w1) \<Rightarrow>
                    (Failure 500 ''INTERNAL_ERROR'' ''An error occurred while updating the score'', w1)
                | (Inr result, w1) \<Rightarrow>
                    (case getUserRank f w1 userId of
                       Inl e \<Rightarrow>
                         (Failure 500 ''INTERNAL_ERROR''
                            ''An error occurred while updating the score'', w1)
                     | Inr rank \<Rightarrow>
                         let inTop10 = isUserInTop10 f w1 userId;
                             w2 = (if inTop10
                                   then publishLeaderboardUpdate f now userId
                                          (broadcastLeaderboardUpdate f now (Some userId) w1)
                                   else w1)
                         in (Success \<lparr>resp_user_id = userId,
                                      resp_previous_score = previousScore result,
                                      resp_new_score = newScore result,
                                      resp_rank = rank, resp_is_top_10 = inTop10\<rparr>, w2)))))"

subsection \<open>leaderboardController.ts: getLeaderboardData\<close>

record leaderboard_request =
  lq_limit :: "string option"
  lq_offset :: "string option"
  lq_user :: "user_payload option"

text \<open>\<^verbatim>\<open>(req.query.x as string) || dflt\<close>: a missing or empty parameter takes the default.\<close>

definition or_default :: "string option \<Rightarrow> string \<Rightarrow> string" where
  "or_default q dflt = (case q of None \<Rightarrow> dflt | Some s \<Rightarrow> if s = [] then dflt else s)"

definition getLeaderboardData ::
  "faults \<Rightarrow> time \<Rightarrow> world \<Rightarrow> leaderboard_request \<Rightarrow> leaderboard_response response \<times> world" where
  "getLeaderboardData f now w req =
     (let limit = parseInt (or_default (lq_limit req) ''10'');
          offset = parseInt (or_default (lq_offset req) ''0'');
          userId = (case lq_user req of
                      None \<Rightarrow> None
                    | Some user \<Rightarrow> if p_userId user = [] then None else Some (p_userId user))
      in
        if js_less limit (Num 1) \<or> js_less (Num 100) limit
        then (Failure 400 ''INVALID_REQUEST'' ''Limit must be between 1 and 100'', w)
        else
          (case getLeaderboard f now w limit offset userId of
             (Inl e, w1) \<Rightarrow>
               (Failure 500 ''INTERNAL_ERROR'' ''An error occurred while fetching the leaderboard'', w1)
           | (Inr data, w1) \<Rightarrow> (Success data, w1)))"

subsection \<open>Example states\<close>

definition no_faults :: faults where
  "no_faults = (\<lambda>c. False)"

text \<open>
  Five registered users; four of them hold the scores 500, 450, 150 and 100, stored in
  another order, and \<open>erin\<close> has no score row.
\<close>

definition demo_db :: database where
  "demo_db =
     \<lparr>users = [\<lparr>u_user_id = ''alice'', u_username = ''Alice''\<rparr>,
               \<lparr>u_user_id = ''bob'', u_username = ''Bob''\<rparr>,
               \<lparr>u_user_id = ''carol'', u_username = ''Carol''\<rparr>,
               \<lparr>u_user_id = ''dave'', u_username = ''Dave''\<rparr>,
               \<lparr>u_user_id = ''erin'', u_username = ''Erin''\<rparr>],
      scores = [\<lparr>s_user_id = ''carol'', s_score = 150, s_updated_at = 0\<rparr>,
                \<lparr>s_user_id = ''alice'', s_score = 500, s_updated_at = 0\<rparr>,
                \<lparr>s_user_id = ''dave'', s_score = 100, s_updated_at = 0\<rparr>,
                \<lparr>s_user_id = ''bob'', s_score = 450, s_updated_at = 0\<rparr>],
      score_history = []\<rparr>"

definition demo_world :: world where
  "demo_world =
     \<lparr>db = demo_db, tx = None, top10_cache = None, score_cache = [], channel = [],
      wss = Some []\<rparr>"

definition request_of :: "string \<Rightarrow> rat \<Rightarrow> int option \<Rightarrow> score_update_request" where
  "request_of uid increment timestamp =
     \<lparr>req_user = Some \<lparr>p_userId = uid, p_username = uid\<rparr>, req_score_increment = increment,
      req_action_id = None, req_timestamp = timestamp, req_ip = Some ''127.0.0.1'',
      req_user_agent = None\<rparr>"

text \<open>Eleven users with scores 1100, 1000, ..., 100: \<open>p11\<close> is the eleventh.\<close>

definition crowd_db :: database where
  "crowd_db =
     \<lparr>users = map (\<lambda>n. \<lparr>u_user_id = n, u_username = n\<rparr>)
                [''p01'', ''p02'', ''p03'', ''p04'', ''p05'', ''p06'', ''p07'', ''p08'', ''p09'',
                 ''p10'', ''p11''],
      scores = [\<lparr>s_user_id = ''p01'', s_score = 1100, s_updated_at = 0\<rparr>,
                \<lparr>s_user_id = ''p02'', s_score = 1000, s_updated_at = 0\<rparr>,
                \<lparr>s_user_id = ''p03'', s_score = 900, s_updated_at = 0\<rparr>,
                \<lparr>s_user_id = ''p04'', s_score = 800, s_updated_at = 0\<rparr>,
                \<lparr>s_user_id = ''p05'', s_score = 700, s_updated_at = 0\<rparr>,
                \<lparr>s_user_id = ''p06'', s_score = 600, s_updated_at = 0\<rparr>,
                \<lparr>s_user_id = ''p07'', s_score = 500, s_updated_at = 0\<rparr>,
                \<lparr>s_user_id = ''p08'', s_score = 400, s_updated_at = 0\<rparr>,
                \<lparr>s_user_id = ''p09'', s_score = 300, s_updated_at = 0\<rparr>,
                \<lparr>s_user_id = ''p10'', s_score = 200, s_updated_at = 0\<rparr>,
                \<lparr>s_user_id = ''p11'', s_score = 100, s_updated_at = 0\<rparr>],
      score_history = []\<rparr>"

definition crowd_world :: world where
  "crowd_world =
     \<lparr>db = crowd_db, tx = None, top10_cache = None, score_cache = [], channel = [],
      wss = Some []\<rparr>"

text \<open>One user whose stored score is \<open>2^53 + 1\<close>.\<close>

definition big_world :: world where
  "big_world =
     \<lparr>db = \<lparr>users = [\<lparr>u_user_id = ''bob'', u_username = ''Bob''\<rparr>],
             scores = [\<lparr>s_user_id = ''bob'', s_score = 9007199254740993, s_updated_at = 0\<rparr>],
             score_history = []\<rparr>,
      tx = None, top10_cache = None, score_cache = [], channel = [], wss = Some []\<rparr>"

text \<open>The listing of \<open>demo_db\<close>, best score first.\<close>

definition demo_listing :: "leaderboard_entry list" where
  "demo_listing =
     [\<lparr>e_user_id = ''alice'', e_username = ''Alice'', e_score = 500, e_rank = Num 1\<rparr>,
      \<lparr>e_user_id = ''bob'', e_username = ''Bob'', e_score = 450, e_rank = Num 2\<rparr>,
      \<lparr>e_user_id = ''carol'', e_username = ''Carol'', e_score = 150, e_rank = Num 3\<rparr>,
      \<lparr>e_user_id = ''dave'', e_username = ''Dave'', e_score = 100, e_rank = Num 4\<rparr>]"

section \<open>Properties\<close>

subsection \<open>Numbers below \<open>2^53\<close> are exact\<close>

lemma round_double_safe:
  assumes "\<bar>n\<bar> < 2 ^ 53"
  shows "round_double n = n"
proof -
  have "bitlen \<bar>n\<bar> \<le> 53"
    using assms by (simp add: bitlen_le_iff_power)
  then have "nat (bitlen \<bar>n\<bar> - 53) = 0" by simp
  then show ?thesis
    by (simp add: round_double_def Let_def mult_sgn_abs)
qed

lemma round_double_large:
  assumes "2 ^ 53 \<le> v"
  shows "2 ^ 53 \<le> round_double v"
proof -
  from assms have pos: "0 < v"
    by (smt (verit) zero_less_power)
  define b where "b = bitlen v"
  define e where "e = nat (b - 53)"
  have b54: "54 \<le> b"
    unfolding b_def using assms by (simp add: bitlen_ge_iff_power)
  have lower: "2 ^ nat (b - 1) \<le> v"
    unfolding b_def using bitlen_bounds [OF pos] by blast
  have split: "nat (b - 1) = 52 + e"
    unfolding e_def using b54 by simp
  have e1: "1 \<le> e" unfolding e_def using b54 by simp
  have le: "(2::int) ^ 52 * 2 ^ e \<le> v"
    using lower by (simp add: split power_add)
  have "((2::int) ^ 52 * 2 ^ e) div 2 ^ e \<le> v div 2 ^ e"
    by (rule zdiv_mono1 [OF le]) simp
  then have q: "(2::int) ^ 52 \<le> v div 2 ^ e"
    by simp
  have "(2::int) ^ 1 \<le> 2 ^ e"
    by (rule power_increasing) (use e1 in simp_all)
  then have "(2::int) ^ 52 * 2 \<le> 2 ^ 52 * 2 ^ e"
    by simp
  then have "(2::int) ^ 53 \<le> 2 ^ 52 * 2 ^ e"
    by simp
  also have "\<dots> \<le> (v div 2 ^ e) * 2 ^ e"
    using q by simp
  finally have base: "(2::int) ^ 53 \<le> (v div 2 ^ e) * 2 ^ e" .
  have "(v div 2 ^ e) * 2 ^ e \<le> (v div 2 ^ e + 1) * (2::int) ^ e"
    by (simp add: distrib_right)
  with base have up: "(2::int) ^ 53 \<le> (v div 2 ^ e + 1) * 2 ^ e" by linarith
  from pos have "\<bar>v\<bar> = v" "sgn v = 1" by simp_all
  then show ?thesis
    using base up
    by (simp add: round_double_def Let_def b_def [symmetric] e_def [symmetric])
qed


lemma round_double_eq_safe:
  assumes "0 \<le> v" and "round_double v = a" and "a < 2 ^ 53"
  shows "v = a"
proof (cases "v < 2 ^ 53")
  case True
  with assms(1) have "round_double v = v"
    by (intro round_double_safe) simp
  with assms(2) show ?thesis by simp
next
  case False
  then have "2 ^ 53 \<le> round_double v"
    by (intro round_double_large) simp
  with assms(2,3) show ?thesis by simp
qed

lemma shortest_at_safe:
  assumes "0 \<le> a" and "a < 2 ^ 53" and "0 \<le> scale" and "shortest_at a scale = Some v"
  shows "v = a"
proof -
  have lo: "0 \<le> (a div scale) * scale"
    using assms(1,3) by (simp add: pos_imp_zdiv_nonneg_iff mult_nonneg_nonneg div_int_pos_iff)
  then have hi: "0 \<le> (a div scale) * scale + scale"
    using assms(3) by simp
  from assms(4) consider
    "v = (a div scale) * scale" "round_double ((a div scale) * scale) = a"
  | "v = (a div scale) * scale + scale" "round_double ((a div scale) * scale + scale) = a"
    unfolding shortest_at_def by (auto simp: Let_def split: if_splits)
  then show ?thesis
  proof cases
    case 1
    with round_double_eq_safe [OF lo _ assms(2)] show ?thesis by simp
  next
    case 2
    with round_double_eq_safe [OF hi _ assms(2)] show ?thesis by simp
  qed
qed

lemma shortest_from_safe:
  assumes "0 \<le> a" and "a < 2 ^ 53" and "0 \<le> scale"
  shows "shortest_from a scale = a"
  using assms
proof (induction a scale rule: shortest_from.induct)
  case (1 a scale)
  show ?case
  proof (cases "shortest_at a scale")
    case None
    have "0 \<le> scale div 10" using "1.prems"(3) by simp
    with None "1.IH" "1.prems" show ?thesis
      by (subst shortest_from.simps) simp
  next
    case (Some v)
    with shortest_at_safe [OF "1.prems" Some] show ?thesis
      by (subst shortest_from.simps) simp
  qed
qed

lemma top_scale_pos: "0 \<le> top_scale a"
proof (induction a rule: top_scale.induct)
  case (1 a)
  then show ?case by (subst top_scale.simps) simp
qed

lemma toString_value_safe:
  assumes "\<bar>d\<bar> < 2 ^ 53"
  shows "toString_value d = d"
  using shortest_from_safe [OF _ assms top_scale_pos]
  by (simp add: toString_value_def mult_sgn_abs)

lemma pg_bigint_safe:
  assumes "\<bar>d\<bar> < 2 ^ 53"
  shows "pg_bigint d = Inr d"
proof -
  from assms have "\<not> d < - (2 ^ 63)" and "\<not> 2 ^ 63 \<le> d"
    by (simp_all add: abs_less_iff)
  then show ?thesis
    by (simp add: pg_bigint_def toString_value_safe [OF assms] Let_def)
qed

lemma pg_int4_increment:
  assumes "1 \<le> i" and "i \<le> 1000"
  shows "pg_int4 i = Inr i"
proof -
  from assms have small: "\<bar>i\<bar> < 2 ^ 53" by simp
  from assms have "\<not> i < - (2 ^ 31)" and "\<not> 2 ^ 31 \<le> i"
    by simp_all
  then show ?thesis
    by (simp add: pg_int4_def toString_value_safe [OF small] Let_def)
qed

subsection \<open>The transaction of updateScore\<close>

lemmas pg_defs = visible_def store_def sql_begin_def sql_commit_def sql_rollback_def

lemma find_map_upd:
  assumes "\<And>r. s_user_id (g r) = s_user_id r"
  shows "find (\<lambda>r. s_user_id r = uid) (map (\<lambda>r. if s_user_id r = uid then g r else r) rs)
   = map_option g (find (\<lambda>r. s_user_id r = uid) rs)"
  using assms by (induction rs) auto

lemma find_append_new:
  "\<not> list_ex P rs \<Longrightarrow> P x \<Longrightarrow> find P (rs @ [x]) = Some x"
  by (induction rs) auto

lemma list_ex_find: "list_ex P rs \<Longrightarrow> \<exists>r. find P rs = Some r"
  by (induction rs) auto

lemma upsert_score_Inr:
  assumes "upsert_score now uid n d = Inr d'"
  shows "\<exists>v. pg_bigint n = Inr v \<and> select_score d' uid = Some v
           \<and> score_history d' = score_history d \<and> users d' = users d"
  using assms unfolding upsert_score_def select_score_def
  by (auto split: if_splits sum.splits simp: find_map_upd find_append_new dest: list_ex_find)

lemma insert_history_Inr:
  assumes "insert_history h d = Inr d'"
  shows "\<exists>increment previous new.
           pg_int4 (h_score_increment h) = Inr increment
           \<and> pg_bigint (h_previous_score h) = Inr previous
           \<and> pg_bigint (h_new_score h) = Inr new
           \<and> scores d' = scores d \<and> users d' = users d
           \<and> score_history d' = score_history d @
                [h\<lparr>h_score_increment := increment, h_previous_score := previous,
                   h_new_score := new\<rparr>]"
  using assms unfolding insert_history_def
  by (auto split: if_splits sum.splits)

lemma updateScore_try_Inr:
  assumes "updateScore_try f now \<lparr>committed = d, pending = None\<rparr> u i a ip ua = Inr (res, c)"
    and "cur = (case select_score d u of Some x \<Rightarrow> parseInt_bigint x | None \<Rightarrow> 0)"
  shows "\<exists>d2 d3. upsert_score now u (js_plus cur i) d = Inr d2
           \<and> insert_history \<lparr>h_user_id = u, h_score_increment = i,
                            h_previous_score = cur, h_new_score = js_plus cur i,
                            h_action_id = a, h_ip_address = ip,
                            h_user_agent = ua, h_created_at = now\<rparr> d2 = Inr d3
           \<and> c = \<lparr>committed = d3, pending = None\<rparr>
           \<and> res = \<lparr>previousScore = cur, newScore = js_plus cur i\<rparr>"
  using assms unfolding updateScore_try_def
  by (auto simp: Let_def pg_defs split: if_splits sum.splits)

lemma updateScore_try_Inl:
  assumes "updateScore_try f now c0 u i a ip ua = Inl (e, c)"
  shows "committed c = committed c0"
  using assms unfolding updateScore_try_def
  by (auto simp: Let_def pg_defs split: if_splits sum.splits option.splits)

lemma updateScore_try_open:
  assumes "updateScore_try f now c0 u i a ip ua = Inl (e, c)" and "\<not> f Begin"
  shows "pending c \<noteq> None"
  using assms unfolding updateScore_try_def
  by (auto simp: Let_def pg_defs split: if_splits sum.splits option.splits)

lemma updateScore_try_fault:
  assumes "f SelectForUpdate \<or> f UpsertScore \<or> f InsertHistory"
  shows "\<exists>e c. updateScore_try f now c0 u i a ip ua = Inl (e, c)"
  using assms unfolding updateScore_try_def
  by (auto simp: Let_def split: if_splits sum.splits)

lemma invalidate_frame:
  "db (invalidateLeaderboardCache f w) = db w"
  "db (invalidateUserScoreCache f u w) = db w"
  "tx (invalidateLeaderboardCache f w) = tx w"
  "tx (invalidateUserScoreCache f u w) = tx w"
  "channel (invalidateLeaderboardCache f w) = channel w"
  "channel (invalidateUserScoreCache f u w) = channel w"
  "wss (invalidateLeaderboardCache f w) = wss w"
  "wss (invalidateUserScoreCache f u w) = wss w"
  by (simp_all add: invalidateLeaderboardCache_def invalidateUserScoreCache_def redis_del_score_def)

lemma updateScore_frame:
  "channel (snd (updateScore f now w u i a ip ua)) = channel w
   \<and> wss (snd (updateScore f now w u i a ip ua)) = wss w"
  unfolding updateScore_def
  by (auto split: sum.splits prod.splits simp: invalidate_frame release_def)

lemma updateScore_Inr:
  assumes "updateScore f now w u i a ip ua = (Inr res, w')"
  shows "\<exists>c. updateScore_try f now \<lparr>committed = db w, pending = tx w\<rparr> u i a ip ua = Inr (res, c)
             \<and> db w' = committed c \<and> tx w' = pending c"
  using assms unfolding updateScore_def
  by (auto split: if_splits sum.splits prod.splits simp: invalidate_frame release_def)

lemma updateScore_Inl:
  assumes "updateScore f now w u i a ip ua = (Inl e, w')" and "tx w = None"
  shows "w' = w"
  using assms unfolding updateScore_def
  by (auto split: if_splits sum.splits prod.splits simp: sql_rollback_def release_def
        dest: updateScore_try_Inl)

lemma updateScore_written:
  assumes "updateScore f now w u i a ip ua = (Inr res, w')" and "tx w = None"
    and "cur = (case select_score (db w) u of Some x \<Rightarrow> parseInt_bigint x | None \<Rightarrow> 0)"
  shows "res = \<lparr>previousScore = cur, newScore = js_plus cur i\<rparr> \<and> tx w' = None
       \<and> (\<exists>increment previous new.
             pg_int4 i = Inr increment \<and> pg_bigint cur = Inr previous
             \<and> pg_bigint (js_plus cur i) = Inr new
             \<and> select_score (db w') u = Some new
             \<and> score_history (db w') = score_history (db w) @
                  [\<lparr>h_user_id = u, h_score_increment = increment, h_previous_score = previous,
                    h_new_score = new, h_action_id = a, h_ip_address = ip, h_user_agent = ua,
                    h_created_at = now\<rparr>])"
proof -
  from updateScore_Inr [OF assms(1)] assms(2) obtain c where
    t: "updateScore_try f now \<lparr>committed = db w, pending = None\<rparr> u i a ip ua = Inr (res, c)"
    and w': "db w' = committed c" "tx w' = pending c"
    by auto
  from updateScore_try_Inr [OF t assms(3)] obtain d2 d3 where
    up: "upsert_score now u (js_plus cur i) (db w) = Inr d2"
    and ins: "insert_history \<lparr>h_user_id = u, h_score_increment = i,
                            h_previous_score = cur, h_new_score = js_plus cur i,
                            h_action_id = a, h_ip_address = ip,
                            h_user_agent = ua, h_created_at = now\<rparr> d2 = Inr d3"
    and c: "c = \<lparr>committed = d3, pending = None\<rparr>"
    and res: "res = \<lparr>previousScore = cur, newScore = js_plus cur i\<rparr>"
    by blast
  from upsert_score_Inr [OF up] obtain v where
    v: "pg_bigint (js_plus cur i) = Inr v" "select_score d2 u = Some v"
       "score_history d2 = score_history (db w)"
    by blast
  from insert_history_Inr [OF ins] obtain increment previous new where
    h: "pg_int4 i = Inr increment" "pg_bigint cur = Inr previous"
       "pg_bigint (js_plus cur i) = Inr new" "scores d3 = scores d2"
       "score_history d3 = score_history d2 @
          [\<lparr>h_user_id = u, h_score_increment = increment, h_previous_score = previous,
            h_new_score = new, h_action_id = a, h_ip_address = ip, h_user_agent = ua,
            h_created_at = now\<rparr>]"
    by auto
  from v(1) h(3) have "new = v" by simp
  moreover from h(4) v(2) have "select_score d3 u = Some v"
    by (simp add: select_score_def)
  ultimately show ?thesis
    using res w' c h v(3) by simp
qed

lemma updateScore_succeeds:
  assumes "\<not> f PoolConnect" "\<not> f Begin" "\<not> f SelectForUpdate" "\<not> f UpsertScore"
    "\<not> f InsertHistory" "\<not> f Commit" and "has_user (db w) u" and "tx w = None"
    and "1 \<le> i" "i \<le> 1000"
    and "s = (case select_score (db w) u of Some x \<Rightarrow> x | None \<Rightarrow> 0)"
    and "- (2 ^ 53) < s" "s + i < 2 ^ 53"
  shows "\<exists>res w'. updateScore f now w u i a ip ua = (Inr res, w')"
proof -
  have cur: "(case select_score (db w) u of Some x \<Rightarrow> parseInt_bigint x | None \<Rightarrow> 0) = s"
    using assms(11-13) assms(9)
    by (auto simp: parseInt_bigint_def round_double_safe split: option.splits)
  have new: "js_plus s i = s + i"
    using assms(9-13) by (simp add: js_plus_def round_double_safe)
  have p: "pg_bigint s = Inr s" "pg_bigint (s + i) = Inr (s + i)" "pg_int4 i = Inr i"
    using assms(9-13) by (simp_all add: pg_bigint_safe pg_int4_increment)
  show ?thesis
    using assms(1-8)
    unfolding updateScore_def updateScore_try_def upsert_score_def insert_history_def
    by (auto simp: Let_def pg_defs has_user_def cur new p split: if_splits sum.splits)
qed

lemma updateScore_fault:
  assumes "f SelectForUpdate \<or> f UpsertScore \<or> f InsertHistory" and "tx w = None"
  shows "\<exists>e. updateScore f now w u i a ip ua = (Inl e, w)"
proof -
  obtain r w' where run: "updateScore f now w u i a ip ua = (r, w')"
    by (cases "updateScore f now w u i a ip ua")
  from updateScore_try_fault [OF assms(1)] have "\<exists>e. r = Inl e"
    using run unfolding updateScore_def
    by (auto split: if_splits sum.splits prod.splits) (metis Inl_Inr_False)
  then obtain e where "r = Inl e" ..
  with run updateScore_Inl [OF _ assms(2)] show ?thesis by blast
qed

text \<open>
  Claim C1 as stated (for every current score \<open>s\<close>) fails where the score leaves the
  integers that a double holds exactly: with \<open>2^53 + 1\<close> stored and the increment 1,
  \<^verbatim>\<open>parseInt\<close> reads \<open>2^53\<close>, the sum rounds to \<open>2^53\<close> again, and \<open>updateScore\<close>
  returns and stores \<open>2^53\<close> for both.
\<close>

theorem updateScore_rounds_large_score:
  "select_score (db big_world) ''bob'' = Some 9007199254740993
   \<and> fst (updateScore no_faults 1000 big_world ''bob'' 1 None None None)
       = Inr \<lparr>previousScore = 9007199254740992, newScore = 9007199254740992\<rparr>
   \<and> select_score (db (snd (updateScore no_faults 1000 big_world ''bob'' 1 None None None)))
        ''bob''
       = Some 9007199254740992"
  by code_simp

text \<open>
  Claim C1, amended. For a participant whose current score is \<open>s\<close> (the score of the
  participant's row, or 0 when there is no row) and an increment \<open>i\<close> with
  \<open>1 \<le> i \<le> 1000\<close>, where \<open>s\<close> and \<open>s + i\<close> are integers that a double holds exactly
  (\<open>- 2^53 < s\<close> and \<open>s + i < 2^53\<close>), every successful \<open>updateScore\<close> on a client with
  no transaction left open returns \<open>previousScore = s\<close> and \<open>newScore = s + i\<close>, leaves
  the participant's row at \<open>s + i\<close>, and appends exactly one row to \<open>score_history\<close>:
  the one with \<open>previous_score = s\<close> and \<open>new_score = s + i\<close>.
\<close>

theorem updateScore_applies_delta:
  assumes "1 \<le> i" and "i \<le> 1000"
    and "tx w = None"
    and "s = (case select_score (db w) u of Some x \<Rightarrow> x | None \<Rightarrow> 0)"
    and "- (2 ^ 53) < s" and "s + i < 2 ^ 53"
    and "updateScore f now w u i a ip ua = (Inr res, w')"
  shows "res = \<lparr>previousScore = s, newScore = s + i\<rparr>
       \<and> select_score (db w') u = Some (s + i)
       \<and> score_history (db w') = score_history (db w) @
            [\<lparr>h_user_id = u, h_score_increment = i, h_previous_score = s, h_new_score = s + i,
              h_action_id = a, h_ip_address = ip, h_user_agent = ua, h_created_at = now\<rparr>]"
proof -
  have cur: "s = (case select_score (db w) u of Some x \<Rightarrow> parseInt_bigint x | None \<Rightarrow> 0)"
    using assms(1,4-6)
    by (auto simp: parseInt_bigint_def round_double_safe split: option.splits)
  have new: "js_plus s i = s + i"
    using assms(1,2,5,6) by (simp add: js_plus_def round_double_safe)
  have p: "pg_bigint s = Inr s" "pg_bigint (s + i) = Inr (s + i)" "pg_int4 i = Inr i"
    using assms(1,2,5,6) by (simp_all add: pg_bigint_safe pg_int4_increment)
  from updateScore_written [OF assms(7) assms(3) cur] show ?thesis
    by (auto simp: new p)
qed

theorem updateScore_applies_delta_witness:
  "fst (updateScore no_faults 1000 demo_world ''bob'' 7 None None None)
     = Inr \<lparr>previousScore = 450, newScore = 450 + 7\<rparr>
   \<and> select_score (db (snd (updateScore no_faults 1000 demo_world ''bob'' 7 None None None))) ''bob''
     = Some (450 + 7)
   \<and> score_history (db (snd (updateScore no_faults 1000 demo_world ''bob'' 7 None None None)))
     = score_history (db demo_world) @
         [\<lparr>h_user_id = ''bob'', h_score_increment = 7, h_previous_score = 450,
           h_new_score = 450 + 7, h_action_id = None, h_ip_address = None,
           h_user_agent = None, h_created_at = 1000\<rparr>]"
proof -
  have s: "450 = (case select_score (db demo_world) ''bob'' of Some x \<Rightarrow> x | None \<Rightarrow> 0)"
    by code_simp
  have t: "tx demo_world = None" by (simp add: demo_world_def)
  have "fst (updateScore no_faults 1000 demo_world ''bob'' 7 None None None)
          = Inr \<lparr>previousScore = 450, newScore = 457\<rparr>"
    by code_simp
  then have r: "fst (updateScore no_faults 1000 demo_world ''bob'' 7 None None None)
          = Inr \<lparr>previousScore = 450, newScore = 450 + 7\<rparr>"
    by simp
  then have run: "updateScore no_faults 1000 demo_world ''bob'' 7 None None None
          = (Inr \<lparr>previousScore = 450, newScore = 450 + 7\<rparr>,
             snd (updateScore no_faults 1000 demo_world ''bob'' 7 None None None))"
    by (simp add: prod_eq_iff)
  have b: "(1::int) \<le> 7" "(7::int) \<le> 1000" "- (2 ^ 53) < (450::int)" "(450::int) + 7 < 2 ^ 53"
    by simp_all
  from updateScore_applies_delta [OF b(1,2) t s b(3,4) run] r show ?thesis by blast
qed

text \<open>
  Claim C3. On a client with no transaction left open: when the locked read, the write of
  the new score or the insert of the history row fails, \<open>updateScore\<close> throws and leaves
  the world as it was, the client released with no transaction open. Whatever fails or
  not, a call ends in one of two ways: an exception with the world unchanged, or a result
  with both the score row and its one history row written and committed; the score is
  never written without the history row, nor the history row without the score. At the
  moment a statement fails the transaction is still open on the client, with the writes
  made so far in it, while the committed tables are those the call started from; it is
  the \<^verbatim>\<open>ROLLBACK\<close> of the \<^verbatim>\<open>catch\<close> block that closes it, so that the client goes
  back to the pool with nothing pending.
\<close>

theorem updateScore_storage_failure_rolls_back:
  assumes "tx w = None"
  shows "(f SelectForUpdate \<or> f UpsertScore \<or> f InsertHistory \<longrightarrow>
            (\<exists>e. updateScore f now w u i a ip ua = (Inl e, w)))
       \<and> (case updateScore f now w u i a ip ua of
            (Inl e, w') \<Rightarrow> w' = w
          | (Inr res, w') \<Rightarrow>
              tx w' = None
              \<and> (\<exists>increment previous new.
                    pg_int4 i = Inr increment \<and> pg_bigint (previousScore res) = Inr previous
                    \<and> pg_bigint (newScore res) = Inr new
                    \<and> select_score (db w') u = Some new
                    \<and> score_history (db w') = score_history (db w) @
                         [\<lparr>h_user_id = u, h_score_increment = increment,
                           h_previous_score = previous, h_new_score = new, h_action_id = a,
                           h_ip_address = ip, h_user_agent = ua, h_created_at = now\<rparr>]))
       \<and> (\<forall>e c. \<not> f Begin
              \<and> updateScore_try f now \<lparr>committed = db w, pending = tx w\<rparr> u i a ip ua = Inl (e, c)
            \<longrightarrow> committed c = db w \<and> pending c \<noteq> None
                \<and> release (sql_rollback c) w = w \<and> release c w \<noteq> w)"
proof (intro conjI impI allI)
  assume "f SelectForUpdate \<or> f UpsertScore \<or> f InsertHistory"
  then show "\<exists>e. updateScore f now w u i a ip ua = (Inl e, w)"
    using assms by (rule updateScore_fault)
next
  fix e c
  assume h: "\<not> f Begin
     \<and> updateScore_try f now \<lparr>committed = db w, pending = tx w\<rparr> u i a ip ua = Inl (e, c)"
  from h updateScore_try_Inl [of f now "\<lparr>committed = db w, pending = tx w\<rparr>" u i a ip ua e c]
  show com: "committed c = db w" by simp
  from h updateScore_try_open show op: "pending c \<noteq> None" by blast
  from com assms show "release (sql_rollback c) w = w"
    by (simp add: release_def sql_rollback_def)
  from op assms show "release c w \<noteq> w"
    by (metis release_def world.select_convs(2) world.surjective world.update_convs(1,2))
next
  obtain r w' where run: "updateScore f now w u i a ip ua = (r, w')"
    by (cases "updateScore f now w u i a ip ua")
  show "case updateScore f now w u i a ip ua of
            (Inl e, w') \<Rightarrow> w' = w
          | (Inr res, w') \<Rightarrow>
              tx w' = None
              \<and> (\<exists>increment previous new.
                    pg_int4 i = Inr increment \<and> pg_bigint (previousScore res) = Inr previous
                    \<and> pg_bigint (newScore res) = Inr new
                    \<and> select_score (db w') u = Some new
                    \<and> score_history (db w') = score_history (db w) @
                         [\<lparr>h_user_id = u, h_score_increment = increment,
                           h_previous_score = previous, h_new_score = new, h_action_id = a,
                           h_ip_address = ip, h_user_agent = ua, h_created_at = now\<rparr>])"
  proof (cases r)
    case (Inl e)
    with run updateScore_Inl [OF _ assms] show ?thesis by auto
  next
    case (Inr res)
    with run updateScore_written [OF _ assms refl] show ?thesis by fastforce
  qed
qed

theorem updateScore_storage_failure_rolls_back_witness:
  "(\<exists>e. updateScore (\<lambda>c. c = InsertHistory) 1000 demo_world ''bob'' 7 None None None
          = (Inl e, demo_world))
   \<and> snd (updateScore (\<lambda>c. c = UpsertScore) 1000 demo_world ''bob'' 7 None None None) = demo_world
   \<and> (case updateScore_try (\<lambda>c. c = InsertHistory) 1000 \<lparr>committed = demo_db, pending = None\<rparr>
               ''bob'' 7 None None None of
         Inl (e, c) \<Rightarrow>
           map_option (\<lambda>d. select_score d ''bob'') (pending c) = Some (Some 457)
           \<and> select_score (committed c) ''bob'' = Some 450
       | Inr r \<Rightarrow> False)"
proof -
  have t: "tx demo_world = None" by (simp add: demo_world_def)
  have open_tx: "case updateScore_try (\<lambda>c. c = InsertHistory) 1000
               \<lparr>committed = demo_db, pending = None\<rparr> ''bob'' 7 None None None of
         Inl (e, c) \<Rightarrow>
           map_option (\<lambda>d. select_score d ''bob'') (pending c) = Some (Some 457)
           \<and> select_score (committed c) ''bob'' = Some 450
       | Inr r \<Rightarrow> False"
    by code_simp
  from updateScore_storage_failure_rolls_back
          [OF t, of "\<lambda>c. c = InsertHistory" 1000 "''bob''" 7 None None None]
        updateScore_storage_failure_rolls_back
          [OF t, of "\<lambda>c. c = UpsertScore" 1000 "''bob''" 7 None None None]
        open_tx
  show ?thesis by auto
qed

subsection \<open>Validation in updateUserScore\<close>

text \<open>
  Claim C2. For an authenticated request whose increment is not an integer between 1 and
  1000, \<open>updateUserScore\<close> answers 400 \<^verbatim>\<open>INVALID_REQUEST\<close> whatever the external calls
  would do, and the world (score table, history table, caches, channel) is unchanged.
\<close>

theorem updateUserScore_rejects_bad_increment:
  assumes "req_user req = Some user"
    and "\<not> (Number_isInteger (req_score_increment req)
             \<and> 1 \<le> req_score_increment req \<and> req_score_increment req \<le> 1000)"
  shows "updateUserScore f now w req
           = (Failure 400 ''INVALID_REQUEST'' ''Score increment must be between 1 and 1000'', w)"
  using assms
  by (auto simp: updateUserScore_def validateScoreUpdateRequest_def error_message_def)

theorem updateUserScore_rejects_bad_increment_witness:
  "updateUserScore no_faults 1000 demo_world (request_of ''bob'' 0 None)
     = (Failure 400 ''INVALID_REQUEST'' ''Score increment must be between 1 and 1000'', demo_world)
   \<and> updateUserScore no_faults 1000 demo_world (request_of ''bob'' (- 5) None)
     = (Failure 400 ''INVALID_REQUEST'' ''Score increment must be between 1 and 1000'', demo_world)
   \<and> updateUserScore no_faults 1000 demo_world (request_of ''bob'' 1001 None)
     = (Failure 400 ''INVALID_REQUEST'' ''Score increment must be between 1 and 1000'', demo_world)
   \<and> updateUserScore no_faults 1000 demo_world (request_of ''bob'' (3 / 2) None)
     = (Failure 400 ''INVALID_REQUEST'' ''Score increment must be between 1 and 1000'', demo_world)"
proof -
  have u: "req_user (request_of ''bob'' q None) = Some \<lparr>p_userId = ''bob'', p_username = ''bob''\<rparr>"
    for q by (simp add: request_of_def)
  have q: "req_score_increment (request_of ''bob'' q None) = q" for q
    by (simp add: request_of_def)
  have "\<not> Number_isInteger (3 / 2)"
    by code_simp
  then show ?thesis
    using updateUserScore_rejects_bad_increment [OF u, of 0 no_faults 1000 demo_world]
      updateUserScore_rejects_bad_increment [OF u, of "- 5" no_faults 1000 demo_world]
      updateUserScore_rejects_bad_increment [OF u, of 1001 no_faults 1000 demo_world]
      updateUserScore_rejects_bad_increment [OF u, of "3 / 2" no_faults 1000 demo_world]
    by (simp add: q)
qed

text \<open>
  A valid request whose transaction fails is answered 500 \<^verbatim>\<open>INTERNAL_ERROR\<close>, with the
  world as it was.
\<close>

lemma updateUserScore_storage_failure:
  assumes "req_user req = Some user"
    and "validateScoreUpdateRequest now (req_score_increment req) (req_timestamp req) = Inr v"
    and "f SelectForUpdate \<or> f UpsertScore \<or> f InsertHistory"
    and "tx w = None"
  shows "updateUserScore f now w req
           = (Failure 500 ''INTERNAL_ERROR'' ''An error occurred while updating the score'', w)"
proof -
  from updateScore_fault [OF assms(3,4)]
  obtain e where "updateScore f now w (p_userId user) \<lfloor>req_score_increment req\<rfloor>
      (req_action_id req) (req_ip req) (req_user_agent req) = (Inl e, w)"
    by blast
  with assms(1,2) show ?thesis
    by (simp add: updateUserScore_def)
qed

subsection \<open>Ranks and listings\<close>

lemma order_by_score_desc_sorted:
  "sorted_wrt (\<lambda>x y. k y \<le> k x) (order_by_score_desc k rows)"
proof -
  have "sorted (map (\<lambda>r. - k r) (sort_key (\<lambda>r. - k r) rows))"
    by (rule sorted_sort_key)
  then show ?thesis
    by (simp add: order_by_score_desc_def sorted_map)
qed

lemma sorted_wrt_enumerate:
  "sorted_wrt (\<lambda>p q. R (snd p) (snd q)) (enumerate n xs) = sorted_wrt R xs"
proof -
  have "sorted_wrt R (map snd (enumerate n xs)) = sorted_wrt (\<lambda>p q. R (snd p) (snd q)) (enumerate n xs)"
    by (rule sorted_wrt_map)
  then show ?thesis by simp
qed

lemma enumerate_desc:
  assumes "sorted_wrt (\<lambda>x y. k y \<le> k x) rows"
  shows "sorted_wrt (\<lambda>p q. k (snd q) \<le> k (snd p)) (enumerate n rows)"
  using assms sorted_wrt_enumerate [of "\<lambda>x y. k y \<le> k x" n rows] by simp

lemma numbered_rows_sorted:
  "sorted_wrt (\<lambda>a b. r_score b \<le> r_score a) (numbered_rows d)"
proof -
  let ?k = "\<lambda>(s, u). s_score s"
  let ?rows = "order_by_score_desc ?k (joined_rows d)"
  have a: "sorted_wrt (\<lambda>x y. ?k y \<le> ?k x) ?rows"
    by (rule order_by_score_desc_sorted)
  have b: "sorted_wrt (\<lambda>p q. ?k (snd q) \<le> ?k (snd p)) (enumerate 1 ?rows)"
    by (rule enumerate_desc [OF a])
  show ?thesis
    unfolding numbered_rows_def sorted_wrt_map
    by (rule sorted_wrt_mono_rel [OF _ b]) (auto split: prod.splits)
qed

lemma top_users_query_sorted:
  assumes "top_users_query d limit offset = Inr rows"
  shows "sorted_wrt (\<lambda>a b. r_score b \<le> r_score a) rows"
  using assms numbered_rows_sorted [of d]
  by (auto simp: top_users_query_def split: number.splits if_splits)

lemma js_slice0_sorted:
  "sorted_wrt R xs \<Longrightarrow> sorted_wrt R (js_slice0 xs n)"
  by (simp add: js_slice0_def split: number.splits)

lemma getTopUsers_result:
  assumes "getTopUsers f now w limit offset = (Inr es, w')"
  shows "(\<exists>cached. offset = Num 0 \<and> redis_get_top10 now w = Some cached
             \<and> es = js_slice0 cached limit \<and> w' = w)
       \<or> (\<exists>rows. (offset \<noteq> Num 0 \<or> redis_get_top10 now w = None)
             \<and> top_users_query (db w) limit offset = Inr rows
             \<and> es = map (\<lambda>row. \<lparr>e_user_id = r_user_id row, e_username = r_username row,
                                   e_score = r_score row,
                                   e_rank = js_add (Num (r_rank row)) offset\<rparr>) rows
             \<and> w' = (if offset = Num 0 then redis_setEx_top10 now es w else w))"
  using assms unfolding getTopUsers_def
  by (auto simp: Let_def split: if_splits sum.splits option.splits)

lemma redis_get_top10_Some:
  "redis_get_top10 now w = Some v \<Longrightarrow> \<exists>t. top10_cache w = Some (v, t)"
  by (auto simp: redis_get_top10_def split: option.splits if_splits)

lemma getTopUsers_descending:
  assumes "getTopUsers f now w limit offset = (Inr es, w')"
    and "\<forall>v t. top10_cache w = Some (v, t) \<longrightarrow> sorted_wrt (\<lambda>a b. e_score b \<le> e_score a) v"
  shows "sorted_wrt (\<lambda>a b. e_score b \<le> e_score a) es
       \<and> (\<forall>v t. top10_cache w' = Some (v, t) \<longrightarrow> sorted_wrt (\<lambda>a b. e_score b \<le> e_score a) v)"
proof -
  from getTopUsers_result [OF assms(1)] consider
    (hit) cached where "redis_get_top10 now w = Some cached" "es = js_slice0 cached limit" "w' = w"
  | (miss) rows where "top_users_query (db w) limit offset = Inr rows"
      "es = map (\<lambda>row. \<lparr>e_user_id = r_user_id row, e_username = r_username row,
                         e_score = r_score row,
                         e_rank = js_add (Num (r_rank row)) offset\<rparr>) rows"
      "w' = (if offset = Num 0 then redis_setEx_top10 now es w else w)"
    by blast
  then show ?thesis
  proof cases
    case hit
    from redis_get_top10_Some [OF hit(1)] assms(2)
    have "sorted_wrt (\<lambda>a b. e_score b \<le> e_score a) cached" by blast
    with hit assms(2) show ?thesis by (simp add: js_slice0_sorted)
  next
    case miss
    have "sorted_wrt (\<lambda>a b. e_score b \<le> e_score a) es"
      using top_users_query_sorted [OF miss(1)] by (simp add: miss(2) sorted_wrt_map)
    with miss(3) assms(2) show ?thesis
      by (auto simp: redis_setEx_top10_def)
  qed
qed

lemma getUserRank_with_record:
  assumes "select_score (db w) u = Some s" and "\<not> f RankQuery"
  shows "getUserRank f w u = Inr (1 + int (length (filter (\<lambda>r. s < s_score r) (scores (db w)))))"
  using assms by (simp add: getUserRank_def rank_query_def)

lemma demo_getTopUsers:
  "fst (getTopUsers no_faults 1000 demo_world (Num 10) (Num 0)) = Inr demo_listing"
  by code_simp

text \<open>
  Claim C7. For a participant whose score row holds \<open>s\<close>, \<open>getUserRank\<close> returns 1 plus
  the number of score rows with a score strictly greater than \<open>s\<close>. With the scores 500,
  450, 150 and 100 in the table, the participant with 450 has rank 2 and
  \<open>getTopUsers(10, 0)\<close> lists 500, 450, 150, 100. In general every listing that
  \<open>getTopUsers\<close> returns is ordered by score, descending, whether it comes from the store
  or from a cached snapshot; the snapshots are those \<open>getTopUsers\<close> stored, so they are
  ordered too, and the call keeps them so.
\<close>

theorem rank_and_listing_order:
  "(select_score (db w) u = Some s \<and> \<not> f RankQuery \<longrightarrow>
      getUserRank f w u = Inr (1 + int (length (filter (\<lambda>r. s < s_score r) (scores (db w))))))
   \<and> map s_score (scores (db demo_world)) = [150, 500, 100, 450]
   \<and> select_score (db demo_world) ''bob'' = Some 450
   \<and> getUserRank no_faults demo_world ''bob'' = Inr 2
   \<and> fst (getTopUsers no_faults 1000 demo_world (Num 10) (Num 0)) = Inr demo_listing
   \<and> map e_score demo_listing = [500, 450, 150, 100]
   \<and> ((\<forall>v t. top10_cache w = Some (v, t) \<longrightarrow> sorted_wrt (\<lambda>a b. e_score b \<le> e_score a) v)
        \<and> getTopUsers f now w limit offset = (Inr es, w') \<longrightarrow>
      sorted_wrt (\<lambda>a b. e_score b \<le> e_score a) es
      \<and> (\<forall>v t. top10_cache w' = Some (v, t) \<longrightarrow> sorted_wrt (\<lambda>a b. e_score b \<le> e_score a) v))"
proof (intro conjI impI)
  show "map s_score (scores (db demo_world)) = [150, 500, 100, 450]" by code_simp
  show "select_score (db demo_world) ''bob'' = Some 450" by code_simp
  show "getUserRank no_faults demo_world ''bob'' = Inr 2" by code_simp
  show "fst (getTopUsers no_faults 1000 demo_world (Num 10) (Num 0)) = Inr demo_listing"
    by (rule demo_getTopUsers)
  show "map e_score demo_listing = [500, 450, 150, 100]" by (simp add: demo_listing_def)
qed (use getUserRank_with_record getTopUsers_descending in blast)+

theorem rank_and_listing_order_witness:
  "getUserRank no_faults demo_world ''carol'' = Inr 3
   \<and> sorted_wrt (\<lambda>a b. e_score b \<le> e_score a) demo_listing"
proof -
  have h1: "select_score (db demo_world) ''carol'' = Some 150" by code_simp
  have h2: "\<not> no_faults RankQuery" by (simp add: no_faults_def)
  have h3: "\<forall>v t. top10_cache demo_world = Some (v, t) \<longrightarrow>
              sorted_wrt (\<lambda>a b. e_score b \<le> e_score a) v"
    by (simp add: demo_world_def)
  have h4: "getTopUsers no_faults 1000 demo_world (Num 10) (Num 0)
              = (Inr demo_listing, snd (getTopUsers no_faults 1000 demo_world (Num 10) (Num 0)))"
    using demo_getTopUsers by (simp add: prod_eq_iff)
  have n: "1 + int (length (filter (\<lambda>r. 150 < s_score r) (scores (db demo_world)))) = 3"
    by code_simp
  from rank_and_listing_order [of demo_world "''carol''" 150 no_faults 1000 "Num 10" "Num 0"
      demo_listing "snd (getTopUsers no_faults 1000 demo_world (Num 10) (Num 0))"] h1 h2 h3 h4
  have "getUserRank no_faults demo_world ''carol''
          = Inr (1 + int (length (filter (\<lambda>r. 150 < s_score r) (scores (db demo_world)))))
        \<and> sorted_wrt (\<lambda>a b. e_score b \<le> e_score a) demo_listing"
    by blast
  then show ?thesis by (simp only: n)
qed

subsection \<open>What the read paths leave untouched\<close>

lemma getTopUsers_frame:
  "db (snd (getTopUsers f now w limit offset)) = db w
   \<and> channel (snd (getTopUsers f now w limit offset)) = channel w
   \<and> wss (snd (getTopUsers f now w limit offset)) = wss w
   \<and> score_cache (snd (getTopUsers f now w limit offset)) = score_cache w"
  unfolding getTopUsers_def
  by (auto simp: Let_def redis_setEx_top10_def split: if_splits sum.splits option.splits)

lemma getLeaderboard_frame:
  "db (snd (getLeaderboard f now w limit offset uid)) = db w
   \<and> channel (snd (getLeaderboard f now w limit offset uid)) = channel w
   \<and> wss (snd (getLeaderboard f now w limit offset uid)) = wss w"
  using getTopUsers_frame [of f now w limit offset]
  unfolding getLeaderboard_def
  by (auto simp: Let_def split: prod.splits sum.splits)

lemma getLeaderboard_userRank:
  assumes "getLeaderboard f now w limit offset (Some u) = (Inr lr, w')"
    and "u \<noteq> []" and "\<not> f UserRankQuery"
  shows "lr_userRank lr = Some (rank_query (db w) u)"
proof -
  obtain r w1 where t: "getTopUsers f now w limit offset = (r, w1)"
    by (cases "getTopUsers f now w limit offset")
  with getTopUsers_frame [of f now w limit offset] have "db w1 = db w" by simp
  with assms t show ?thesis
    unfolding getLeaderboard_def by (auto simp: Let_def split: sum.splits)
qed

lemma broadcast_frame:
  "db (broadcastLeaderboardUpdate f now uid w) = db w
   \<and> channel (broadcastLeaderboardUpdate f now uid w) = channel w"
  using getLeaderboard_frame [of f now w "Num 10" "Num 0" uid]
  unfolding broadcastLeaderboardUpdate_def
  by (auto simp: Let_def split: option.splits prod.splits sum.splits)

lemma publish_frame:
  "db (publishLeaderboardUpdate f now u w) = db w"
  by (simp add: publishLeaderboardUpdate_def)

lemma rank_query_no_record:
  "select_score d u = None \<Longrightarrow> rank_query d u = 1"
  by (simp add: rank_query_def)

text \<open>
  Claim C10. For a participant without a score row \<open>getUserRank\<close> returns 1, however many
  participants hold a positive score: the subquery has no row, the comparison with its
  \<^verbatim>\<open>NULL\<close> is true for nobody. So the rank is not 1 plus the number of participants
  with a score above 0 as soon as there is one such participant. The rank that
  \<open>getLeaderboard\<close> reports for the caller is computed the same way and is 1 as well,
  while \<open>getUserScore\<close> (on a cache miss) reports the score 0 for this participant.
\<close>

theorem rank_without_score_record:
  assumes "select_score (db w) u = None"
  shows "(\<not> f RankQuery \<longrightarrow> getUserRank f w u = Inr 1)
       \<and> (\<not> f RankQuery \<and> list_ex (\<lambda>r. 0 < s_score r) (scores (db w)) \<longrightarrow>
            getUserRank f w u
              \<noteq> Inr (1 + int (length (filter (\<lambda>r. 0 < s_score r) (scores (db w))))))
       \<and> (u \<noteq> [] \<and> \<not> f UserRankQuery
            \<and> getLeaderboard f now w limit offset (Some u) = (Inr lr, w') \<longrightarrow>
            lr_userRank lr = Some 1)
       \<and> (\<not> f RedisConnect \<and> \<not> f RedisGet \<and> \<not> f ScoreQuery \<and> \<not> f RedisSetEx
            \<and> redis_get_score now w u = None \<longrightarrow>
            fst (getUserScore f now w u) = Inr 0)"
proof (intro conjI impI)
  assume "\<not> f RankQuery"
  then show "getUserRank f w u = Inr 1"
    by (simp add: getUserRank_def rank_query_no_record [OF assms])
next
  assume a: "\<not> f RankQuery \<and> list_ex (\<lambda>r. 0 < s_score r) (scores (db w))"
  then have "filter (\<lambda>r. 0 < s_score r) (scores (db w)) \<noteq> []"
    by (auto simp: list_ex_iff filter_empty_conv)
  then have "0 < length (filter (\<lambda>r. 0 < s_score r) (scores (db w)))" by simp
  with a show "getUserRank f w u
      \<noteq> Inr (1 + int (length (filter (\<lambda>r. 0 < s_score r) (scores (db w)))))"
    by (simp add: getUserRank_def rank_query_no_record [OF assms])
next
  assume "u \<noteq> [] \<and> \<not> f UserRankQuery
            \<and> getLeaderboard f now w limit offset (Some u) = (Inr lr, w')"
  then show "lr_userRank lr = Some 1"
    using getLeaderboard_userRank [of f now w limit offset u lr w']
    by (simp add: rank_query_no_record [OF assms])
next
  assume "\<not> f RedisConnect \<and> \<not> f RedisGet \<and> \<not> f ScoreQuery \<and> \<not> f RedisSetEx
            \<and> redis_get_score now w u = None"
  then show "fst (getUserScore f now w u) = Inr 0"
    by (simp add: getUserScore_def assms)
qed

theorem rank_without_score_record_witness:
  "getUserRank no_faults demo_world ''erin'' = Inr 1
   \<and> 1 + int (length (filter (\<lambda>r. 0 < s_score r) (scores (db demo_world)))) = 5
   \<and> fst (getUserScore no_faults 1000 demo_world ''erin'') = Inr 0"
proof -
  have h: "select_score (db demo_world) ''erin'' = None" by code_simp
  have c: "redis_get_score 1000 demo_world ''erin'' = None" by code_simp
  have n: "1 + int (length (filter (\<lambda>r. 0 < s_score r) (scores (db demo_world)))) = 5"
    by code_simp
  from rank_without_score_record [OF h, of no_faults 1000] c n show ?thesis
    by (simp add: no_faults_def)
qed

subsection \<open>Ranks in a listing that starts at an offset\<close>

text \<open>
  Claim C4 says that the entry at position \<open>i\<close> of a listing answered from the store
  carries the rank \<open>offset + i + 1\<close>. \<^verbatim>\<open>ROW_NUMBER()\<close> already numbers the rows of the
  whole ordered table, and \<open>getTopUsers\<close> adds the offset once more. With the scores 500,
  450, 150 and 100 the listing for limit 2 and offset 1 starts with the participant of
  score 450, whose rank is 2, and gives it the rank 3; the next entry, of rank 3, gets 4.
\<close>

theorem getTopUsers_rank_with_offset:
  "fst (getTopUsers no_faults 1000 demo_world (Num 2) (Num 1))
     = Inr [\<lparr>e_user_id = ''bob'', e_username = ''Bob'', e_score = 450, e_rank = Num 3\<rparr>,
            \<lparr>e_user_id = ''carol'', e_username = ''Carol'', e_score = 150, e_rank = Num 4\<rparr>]
   \<and> getUserRank no_faults demo_world ''bob'' = Inr 2
   \<and> getUserRank no_faults demo_world ''carol'' = Inr 3"
  by code_simp

text \<open>
  In general: in a listing answered from the store for the offset \<open>off\<close>, the entry at
  position \<open>i\<close> stands at position \<open>off + i + 1\<close> of the ordered table and carries the
  rank \<open>off + (off + i + 1)\<close>. The two agree for the offset 0 only.
\<close>

lemma numbered_rows_rank:
  assumes "j < length (numbered_rows d)"
  shows "r_rank (numbered_rows d ! j) = int j + 1"
  using assms unfolding numbered_rows_def
  by (simp add: nth_enumerate_eq split: prod.splits)

lemma top_users_query_rank:
  assumes "top_users_query d (Num l) (Num off) = Inr rows" and "i < length rows"
  shows "r_rank (rows ! i) = off + int i + 1"
proof -
  from assms(1) have off: "0 \<le> off" and l: "0 \<le> l"
    and rows: "rows = take (nat l) (drop (nat off) (numbered_rows d))"
    by (auto simp: top_users_query_def split: if_splits)
  from assms(2) rows have "nat off + i < length (numbered_rows d)" by (simp add: less_diff_conv add.commute)
  then have "r_rank (numbered_rows d ! (nat off + i)) = int (nat off + i) + 1"
    by (rule numbered_rows_rank)
  moreover from assms(2) rows have "rows ! i = numbered_rows d ! (nat off + i)"
    by (simp add: less_diff_conv add.commute nth_drop)
  ultimately show ?thesis using off by simp
qed

lemma getTopUsers_rank_from_store:
  assumes "getTopUsers f now w (Num l) (Num off) = (Inr es, w')"
    and "off \<noteq> 0 \<or> redis_get_top10 now w = None"
    and "i < length es"
  shows "e_rank (es ! i) = Num (off + (off + int i + 1))"
proof -
  from getTopUsers_result [OF assms(1)] assms(2) obtain rows where
    q: "top_users_query (db w) (Num l) (Num off) = Inr rows"
    and es: "es = map (\<lambda>row. \<lparr>e_user_id = r_user_id row, e_username = r_username row,
                                 e_score = r_score row,
                                 e_rank = js_add (Num (r_rank row)) (Num off)\<rparr>) rows"
    by auto
  from assms(3) es have i: "i < length rows" by simp
  from top_users_query_rank [OF q i] i show ?thesis
    by (simp add: es add.commute)
qed

subsection \<open>What the cache is filled with\<close>

text \<open>
  Claim C5 says that only the full top-N window at offset 0 refills the cache. The key is
  \<^verbatim>\<open>leaderboard:top10\<close> and the comment reads \<^verbatim>\<open>Cache top 10 if offset is 0\<close>, but
  \<open>getTopUsers\<close> stores whatever listing a miss at offset 0 produced, of any limit. Here a
  call with limit 1 stores a snapshot of one entry, and the next call with limit 10, one
  second later, is answered from it with that one entry, where the store holds four.
\<close>

theorem getTopUsers_caches_partial_window:
  "getTopUsers no_faults 1000 demo_world (Num 1) (Num 0)
     = (Inr (take 1 demo_listing),
        demo_world\<lparr>top10_cache := Some (take 1 demo_listing, 31000)\<rparr>)
   \<and> getTopUsers no_faults 2000 (demo_world\<lparr>top10_cache := Some (take 1 demo_listing, 31000)\<rparr>)
        (Num 10) (Num 0)
     = (Inr (take 1 demo_listing),
        demo_world\<lparr>top10_cache := Some (take 1 demo_listing, 31000)\<rparr>)
   \<and> fst (getTopUsers no_faults 2000 demo_world (Num 10) (Num 0)) = Inr demo_listing"
  by code_simp

text \<open>
  The rest of the claim holds: a successful call writes the cache exactly on a miss at
  offset 0, with an expiry 30 seconds ahead, and a hit at offset 0 returns
  \<^verbatim>\<open>slice(0, limit)\<close> of the snapshot and changes nothing.
\<close>

lemma getTopUsers_cache_written:
  assumes "getTopUsers f now w limit offset = (Inr es, w')"
  shows "w' = (if offset = Num 0 \<and> redis_get_top10 now w = None
               then w\<lparr>top10_cache := Some (es, now + 30000)\<rparr> else w)"
  using getTopUsers_result [OF assms]
  by (auto simp: redis_setEx_top10_def LEADERBOARD_CACHE_TTL_def)

lemma getTopUsers_cache_hit:
  assumes "offset = Num 0" and "\<not> f RedisGet" and "top10_cache w = Some (cached, expires)"
    and "now < expires"
  shows "getTopUsers f now w limit offset = (Inr (js_slice0 cached limit), w)"
  using assms by (simp add: getTopUsers_def redis_get_top10_def)

subsection \<open>The timestamp window\<close>

text \<open>
  Claim C8 says that a supplied timestamp outside the window of five minutes, the value 0
  among them, fails the validation. \<^verbatim>\<open>timestamp && ...\<close> and \<^verbatim>\<open>!timestamp\<close> take
  the number 0 for a missing timestamp: at the server time 1700000000000 a request with
  timestamp 0 passes, and the score is written.
\<close>

theorem updateUserScore_accepts_timestamp_zero:
  "fst (updateUserScore no_faults 1700000000000 demo_world (request_of ''bob'' 10 (Some 0)))
     = Success \<lparr>resp_user_id = ''bob'', resp_previous_score = 450, resp_new_score = 460,
                resp_rank = 2, resp_is_top_10 = True\<rparr>
   \<and> select_score
        (db (snd (updateUserScore no_faults 1700000000000 demo_world
                    (request_of ''bob'' 10 (Some 0))))) ''bob''
     = Some 460"
  by code_simp

text \<open>For every other timestamp the window is enforced, before anything is stored.\<close>

lemma validate_timestamp_window:
  assumes "Number_isInteger i" "1 \<le> i" "i \<le> 1000" "t \<noteq> 0"
  shows "validateScoreUpdateRequest now i (Some t)
           = (if \<bar>now - t\<bar> \<le> 300000 then Inr True
              else Inl (Error ''Invalid timestamp - possible replay attack''))"
  using assms by (simp add: validateScoreUpdateRequest_def validateTimestamp_def truthy_def Let_def)

lemma updateUserScore_rejects_stale_timestamp:
  assumes "req_user req = Some user" and "req_timestamp req = Some t" and "t \<noteq> 0"
    and "300000 < \<bar>now - t\<bar>"
  shows "\<exists>msg. updateUserScore f now w req = (Failure 400 ''INVALID_REQUEST'' msg, w)"
  using assms
  by (auto simp: updateUserScore_def validateScoreUpdateRequest_def validateTimestamp_def
        truthy_def Let_def error_message_def)

subsection \<open>Parameters of the leaderboard query\<close>

text \<open>
  Claim C9 says that a limit that is no number, and a negative offset, are rejected with a
  validation error before the store is consulted. \<open>getLeaderboardData\<close> checks the limit
  only, by two comparisons that are both false for \<^verbatim>\<open>NaN\<close>: the offset \<^verbatim>\<open>-1\<close> and
  the limit \<^verbatim>\<open>abc\<close> reach the query, which PostgreSQL refuses, and the answer is
  500 \<^verbatim>\<open>INTERNAL_ERROR\<close>.
\<close>

theorem getLeaderboardData_unchecked_parameters:
  "getLeaderboardData no_faults 1000 demo_world
       \<lparr>lq_limit = Some ''10'', lq_offset = Some ''-1'', lq_user = None\<rparr>
     = (Failure 500 ''INTERNAL_ERROR'' ''An error occurred while fetching the leaderboard'',
        demo_world)
   \<and> top_users_query (db demo_world) (Num 10) (Num (- 1))
     = Inl (QueryRejected ''OFFSET must not be negative'')
   \<and> getLeaderboardData no_faults 1000 demo_world
       \<lparr>lq_limit = Some ''abc'', lq_offset = None, lq_user = None\<rparr>
     = (Failure 500 ''INTERNAL_ERROR'' ''An error occurred while fetching the leaderboard'',
        demo_world)
   \<and> top_users_query (db demo_world) NaN (Num 0)
     = Inl (QueryRejected ''invalid input syntax for type bigint'')"
  by code_simp

text \<open>A limit that is a number outside 1..100 is rejected, with the world unchanged.\<close>

lemma getLeaderboardData_limit_range:
  assumes "parseInt (or_default (lq_limit req) ''10'') = Num l" and "l < 1 \<or> 100 < l"
  shows "getLeaderboardData f now w req
           = (Failure 400 ''INVALID_REQUEST'' ''Limit must be between 1 and 100'', w)"
  using assms by (auto simp: getLeaderboardData_def Let_def)

subsection \<open>Publishing on the channel\<close>

text \<open>
  Claim C6 as stated (a message is published after every successful mutation, for every
  participant) fails: the eleventh of eleven participants raises the score from 100 to 105,
  stays outside the top 10, and nothing is published.
\<close>

theorem updateUserScore_silent_outside_top10:
  "fst (updateUserScore no_faults 1000 crowd_world (request_of ''p11'' 5 None))
     = Success \<lparr>resp_user_id = ''p11'', resp_previous_score = 100, resp_new_score = 105,
                resp_rank = 11, resp_is_top_10 = False\<rparr>
   \<and> channel (snd (updateUserScore no_faults 1000 crowd_world (request_of ''p11'' 5 None))) = []"
  by code_simp

lemma isUserInTop10_db:
  "db w' = db w \<Longrightarrow> isUserInTop10 f w' u = isUserInTop10 f w u"
  by (simp add: isUserInTop10_def)

text \<open>
  Claim C6, amended. After a successful \<open>updateUserScore\<close> the message
  \<open>{participant, now}\<close> is published on the channel exactly when the participant is then
  among the first ten score rows by descending score (\<open>isUserInTop10\<close> on the store as
  committed, which is also false when its query fails) and the publish call does not fail;
  otherwise the channel is as before.
\<close>

theorem updateUserScore_publishes_when_top10:
  assumes "updateUserScore f now w req = (Success r, w')"
  shows "resp_is_top_10 r = isUserInTop10 f w' (resp_user_id r)
       \<and> channel w' = (if resp_is_top_10 r \<and> \<not> f RedisPublish
                        then channel w @ [\<lparr>m_userId = resp_user_id r, m_timestamp = now\<rparr>]
                        else channel w)"
proof -
  obtain user where user: "req_user req = Some user"
    using assms by (auto simp: updateUserScore_def split: option.splits)
  let ?u = "p_userId user"
  obtain x w1 where upd0:
    "updateScore f now w ?u \<lfloor>req_score_increment req\<rfloor> (req_action_id req)
            (req_ip req) (req_user_agent req) = (x, w1)"
    by (cases "updateScore f now w ?u \<lfloor>req_score_increment req\<rfloor> (req_action_id req)
            (req_ip req) (req_user_agent req)")
  from assms user upd0 obtain res where x: "x = Inr res"
    unfolding updateUserScore_def
    by (cases x) (auto simp: Let_def split: sum.splits)
  from assms user upd0 x have
    w': "w' = (if isUserInTop10 f w1 ?u
               then publishLeaderboardUpdate f now ?u
                      (broadcastLeaderboardUpdate f now (Some ?u) w1)
               else w1)"
    and r: "resp_user_id r = ?u" "resp_is_top_10 r = isUserInTop10 f w1 ?u"
    unfolding updateUserScore_def
    by (auto simp: Let_def split: sum.splits)
  from updateScore_frame [of f now w ?u "\<lfloor>req_score_increment req\<rfloor>" "req_action_id req"
      "req_ip req" "req_user_agent req"] upd0
  have ch: "channel w1 = channel w" by simp
  have dbw: "db w' = db w1"
    by (simp add: w' publish_frame broadcast_frame)
  have "channel w' = (if isUserInTop10 f w1 ?u \<and> \<not> f RedisPublish
                        then channel w @ [\<lparr>m_userId = ?u, m_timestamp = now\<rparr>]
                        else channel w)"
    by (simp add: w' ch publishLeaderboardUpdate_def broadcast_frame)
  with r isUserInTop10_db [OF dbw] show ?thesis by simp
qed

theorem updateUserScore_publishes_when_top10_witness:
  "isUserInTop10 no_faults (snd (updateUserScore no_faults 1000 demo_world (request_of ''bob'' 7 None))) ''bob''
   \<and> channel (snd (updateUserScore no_faults 1000 demo_world (request_of ''bob'' 7 None)))
       = channel demo_world @ [\<lparr>m_userId = ''bob'', m_timestamp = 1000\<rparr>]"
proof -
  let ?r = "\<lparr>resp_user_id = ''bob'', resp_previous_score = 450, resp_new_score = 457,
             resp_rank = 2, resp_is_top_10 = True\<rparr>"
  have "fst (updateUserScore no_faults 1000 demo_world (request_of ''bob'' 7 None)) = Success ?r"
    by code_simp
  then have run: "updateUserScore no_faults 1000 demo_world (request_of ''bob'' 7 None)
      = (Success ?r, snd (updateUserScore no_faults 1000 demo_world (request_of ''bob'' 7 None)))"
    by (simp add: prod_eq_iff)
  from updateUserScore_publishes_when_top10 [OF run] show ?thesis
    by (simp add: no_faults_def)
qed

end
